theory Spec2Isabelle
  imports Complex_Main "HOL-Library.Word" "HOL-Library.AList"
begin

text \<open>
  The repository is one React component, \<open>App\<close>, a board of short text memories:
  they are typed or dictated, kept in \<open>localStorage\<close>, listed, searched, spoken and
  deleted. This theory embeds the component of \<open>src/unnamed/part_000\<close>: its state, its
  handlers, its effects and the list it renders. \<open>src/src/App.jsx\<close> is a second copy
  of the component with the same handlers and effects word for word (but for the
  text of one log message); it has no audio level and renders the list without the
  two empty-state messages.
\<close>

section \<open>JavaScript strings\<close>

text \<open>
  A JavaScript string is a sequence of UTF-16 code units. Literals of the source that
  are plain ASCII are written \<open>js ''...''\<close>.
\<close>

type_synonym jsstring = "16 word list"

definition js :: "string \<Rightarrow> jsstring" where
  "js s = map of_char s"

text \<open>
  \<open>String.prototype.trim\<close> strips the code units of ECMAScript's WhiteSpace and
  LineTerminator productions from both ends: TAB, LF, VT, FF, CR, SP, NBSP, the
  space separators U+1680, U+2000..U+200A, U+202F, U+205F, U+3000, the line and
  paragraph separators U+2028 and U+2029, and U+FEFF.
\<close>

definition isWhiteSpace :: "16 word \<Rightarrow> bool" where
  "isWhiteSpace c =
     (List.member [9, 10, 11, 12, 13, 32, 160, 5760, 8232, 8233, 8239, 8287, 12288, 65279] c
      \<or> (8192 \<le> c \<and> c \<le> 8202))"

definition trim :: "jsstring \<Rightarrow> jsstring" where
  "trim s = rev (dropWhile isWhiteSpace (rev (dropWhile isWhiteSpace s)))"

text \<open>\<open>s.startsWith(p)\<close> and \<open>s.includes(p)\<close> (here \<open>includes_js\<close>), both comparing code units.\<close>

fun startsWith :: "jsstring \<Rightarrow> jsstring \<Rightarrow> bool" where
  "startsWith s [] = True"
| "startsWith [] (p # ps) = False"
| "startsWith (c # cs) (p # ps) = (c = p \<and> startsWith cs ps)"

fun includes_js :: "jsstring \<Rightarrow> jsstring \<Rightarrow> bool" where
  "includes_js [] p = (p = [])"
| "includes_js (c # cs) p = (startsWith (c # cs) p \<or> includes_js cs p)"

section \<open>Data model\<close>

text \<open>
  The object built in \<open>handleAddMemory\<close>: \<open>{ id, text, timestamp }\<close>. The id is the
  value of \<open>Date.now()\<close>, an integer number of milliseconds. The fields carry the
  prefix \<open>m_\<close>, since \<open>id\<close> is the identity function of HOL and \<open>text\<close> a keyword.
\<close>

record memory =
  m_id :: int
  m_text :: jsstring
  m_timestamp :: jsstring

text \<open>A \<open>SpeechSynthesisVoice\<close>; the component reads only \<open>lang\<close>.\<close>

record voice =
  voice_name :: jsstring
  voice_lang :: jsstring

text \<open>The \<open>SpeechRecognition\<close> instance created once by \<open>useMemo\<close>.\<close>

record recognizer =
  rec_continuous :: bool
  rec_interimResults :: bool
  rec_lang :: jsstring

datatype js_error = SyntaxError | SecurityError | QuotaExceededError | TypeError

text \<open>
  \<open>window.localStorage\<close>: the stored entries, the quota in code units (\<open>setItem\<close>
  throws when the entries would exceed it) and whether the storage may be accessed
  at all (otherwise every access throws).
\<close>

record storage =
  entries :: "(jsstring \<times> jsstring) list"
  quota :: nat
  accessible :: bool

definition used :: "(jsstring \<times> jsstring) list \<Rightarrow> nat" where
  "used es = sum_list (map (\<lambda>(k, v). length k + length v) es)"

definition getItem :: "storage \<Rightarrow> jsstring \<Rightarrow> js_error + jsstring option" where
  "getItem st k = (if accessible st then Inr (map_of (entries st) k) else Inl SecurityError)"

definition setItem :: "storage \<Rightarrow> jsstring \<Rightarrow> jsstring \<Rightarrow> js_error + storage" where
  "setItem st k v =
     (if \<not> accessible st then Inl SecurityError
      else if quota st < used (AList.update k v (entries st)) then Inl QuotaExceededError
      else Inr (st\<lparr>entries := AList.update k v (entries st)\<rparr>))"

text \<open>The seven \<open>useState\<close> cells of the component.\<close>

record state =
  memories :: "memory list"
  newMemory :: jsstring
  searchTerm :: jsstring
  isListening :: bool
  language :: jsstring
  voices :: "voice list"
  audioLevel :: real

text \<open>
  The component state together with what its closures reach outside React: the
  recognition instance (\<open>None\<close> when the browser has no \<open>SpeechRecognition\<close>),
  whether \<open>'speechSynthesis' in window\<close> holds, and the local storage.
\<close>

record world = state +
  recognition :: "recognizer option"
  hasSpeechSynthesis :: bool
  localStorage :: storage

section \<open>Calls made by the handlers\<close>

text \<open>
  A handler reads the state of the render it was created in and makes a sequence of
  calls: state setters, calls on the event, \<open>alert\<close>, the console, and the two speech
  devices. The model of a handler is the list of its calls, in source order.
\<close>

datatype detail = Exn js_error | Str jsstring

datatype action =
    SetMemories "memory list"
  | SetNewMemory jsstring
  | SetSearchTerm jsstring
  | SetIsListening bool
  | SetLanguage jsstring
  | SetVoices "voice list"
  | SetAudioLevel real
  | PreventDefault
  | Alert jsstring
  | ConsoleError jsstring detail
  | ConsoleWarn jsstring
  | RecognitionLang jsstring
  | RecognitionStart
  | RecognitionStop
  | SynthesisCancel
  | SynthesisSpeak jsstring "voice option"

fun setsListening :: "action \<Rightarrow> bool" where
  "setsListening (SetIsListening b) = True"
| "setsListening a = False"

fun isSetMemories :: "action \<Rightarrow> bool" where
  "isSetMemories (SetMemories ms) = True"
| "isSetMemories a = False"

fun isAlert :: "action \<Rightarrow> bool" where
  "isAlert (Alert t) = True"
| "isAlert a = False"

fun isConsoleError :: "action \<Rightarrow> bool" where
  "isConsoleError (ConsoleError t d) = True"
| "isConsoleError a = False"

fun isDeviceCall :: "action \<Rightarrow> bool" where
  "isDeviceCall (RecognitionLang l) = True"
| "isDeviceCall RecognitionStart = True"
| "isDeviceCall RecognitionStop = True"
| "isDeviceCall SynthesisCancel = True"
| "isDeviceCall (SynthesisSpeak t v) = True"
| "isDeviceCall a = False"

section \<open>The handlers\<close>

text \<open>
  \<open>handleAddMemory\<close>; \<open>now\<close> is the value of \<open>Date.now()\<close> and \<open>stamp\<close> the value of
  \<open>new Date().toLocaleString()\<close> at the call.
\<close>

definition handleAddMemory :: "world \<Rightarrow> int \<Rightarrow> jsstring \<Rightarrow> action list" where
  "handleAddMemory w now stamp =
     (if trim (newMemory w) = [] then
        [PreventDefault, Alert (js ''Please enter a memory!'')]
      else
        [PreventDefault,
         SetMemories (\<lparr>m_id = now, m_text = newMemory w, m_timestamp = stamp\<rparr> # memories w),
         SetNewMemory []])"

definition handleDeleteMemory :: "world \<Rightarrow> int \<Rightarrow> action list" where
  "handleDeleteMemory w idToDelete =
     [SetMemories (filter (\<lambda>memory. m_id memory \<noteq> idToDelete) (memories w))]"

definition handleSpeak :: "world \<Rightarrow> jsstring \<Rightarrow> action list" where
  "handleSpeak w textToSpeak =
     (if hasSpeechSynthesis w then
        SynthesisCancel #
        (case List.find (\<lambda>voice. startsWith (voice_lang voice) (language w)) (voices w) of
           Some selectedVoice \<Rightarrow> [SynthesisSpeak textToSpeak (Some selectedVoice)]
         | None \<Rightarrow>
             [ConsoleWarn (js ''No voice found for language: '' @ language w
                           @ js ''. Using default.''),
              SynthesisSpeak textToSpeak None])
      else [Alert (js ''Sorry, your browser does not support text-to-speech.'')])"

definition handleListen :: "world \<Rightarrow> action list" where
  "handleListen w =
     (case recognition w of
        None \<Rightarrow> [Alert (js ''Sorry, your browser does not support voice recognition.'')]
      | Some r \<Rightarrow>
          RecognitionLang (language w) #
          (if isListening w then [RecognitionStop, SetIsListening False]
           else [RecognitionStart, SetIsListening True]))"

text \<open>The list that is rendered.\<close>

definition filteredMemories ::
  "(jsstring \<Rightarrow> jsstring) \<Rightarrow> world \<Rightarrow> memory list" where
  "filteredMemories toLowerCase w =
     filter (\<lambda>memory. includes_js (toLowerCase (m_text memory)) (toLowerCase (searchTerm w)))
       (memories w)"

section \<open>JSON\<close>

text \<open>
  \<open>JSON.stringify\<close> on an array of memory objects. The properties are written in
  creation order (\<open>id\<close>, \<open>text\<close>, \<open>timestamp\<close>), without white space. An integer
  number is written in decimal (ECMAScript does so below \<open>10\<^sup>2\<^sup>1\<close>; the values of
  \<open>Date.now()\<close> are below \<open>10\<^sup>1\<^sup>6\<close>). \<open>QuoteJSONString\<close> escapes the quote, the
  backslash, the control characters and every surrogate that is not part of a pair.
\<close>

definition digitChar :: "nat \<Rightarrow> 16 word" where
  "digitChar d = of_nat (48 + d)"

fun digits :: "nat \<Rightarrow> jsstring" where
  "digits n = (if n < 10 then [digitChar n] else digits (n div 10) @ [digitChar (n mod 10)])"

declare digits.simps [simp del]

definition numberToString :: "int \<Rightarrow> jsstring" where
  "numberToString i = (if i < 0 then 45 # digits (nat (- i)) else digits (nat i))"

definition hexChar :: "nat \<Rightarrow> 16 word" where
  "hexChar d = (if d < 10 then of_nat (48 + d) else of_nat (87 + d))"

definition unicodeEscape :: "16 word \<Rightarrow> jsstring" where
  "unicodeEscape c =
     [92, 117, hexChar (unat c div 4096), hexChar (unat c div 256 mod 16),
      hexChar (unat c div 16 mod 16), hexChar (unat c mod 16)]"

definition isHighSurrogate :: "16 word \<Rightarrow> bool" where
  "isHighSurrogate c = (55296 \<le> c \<and> c \<le> 56319)"

definition isLowSurrogate :: "16 word \<Rightarrow> bool" where
  "isLowSurrogate c = (56320 \<le> c \<and> c \<le> 57343)"

definition escapeUnit :: "16 word \<Rightarrow> jsstring" where
  "escapeUnit c =
     (if c = 8 then [92, 98]
      else if c = 9 then [92, 116]
      else if c = 10 then [92, 110]
      else if c = 12 then [92, 102]
      else if c = 13 then [92, 114]
      else if c = 34 then [92, 34]
      else if c = 92 then [92, 92]
      else if c < 32 \<or> isHighSurrogate c \<or> isLowSurrogate c then unicodeEscape c
      else [c])"

fun quoteBody :: "jsstring \<Rightarrow> jsstring" where
  "quoteBody [] = []"
| "quoteBody [c] = escapeUnit c"
| "quoteBody (c # d # cs) =
     (if isHighSurrogate c \<and> isLowSurrogate d then c # d # quoteBody cs
      else escapeUnit c @ quoteBody (d # cs))"

definition quoteJSONString :: "jsstring \<Rightarrow> jsstring" where
  "quoteJSONString s = 34 # quoteBody s @ [34]"

definition stringifyMemory :: "memory \<Rightarrow> jsstring" where
  "stringifyMemory m =
     123 # quoteJSONString (js ''id'') @ 58 # numberToString (m_id m)
     @ 44 # quoteJSONString (js ''text'') @ 58 # quoteJSONString (m_text m)
     @ 44 # quoteJSONString (js ''timestamp'') @ 58 # quoteJSONString (m_timestamp m)
     @ [125]"

fun joinComma :: "jsstring list \<Rightarrow> jsstring" where
  "joinComma [] = []"
| "joinComma [x] = x"
| "joinComma (x # y # xs) = x @ 44 # joinComma (y # xs)"

definition JSON_stringify :: "memory list \<Rightarrow> jsstring" where
  "JSON_stringify ms = 91 # joinComma (map stringifyMemory ms) @ [93]"

text \<open>
  \<open>JSON.parse\<close>: a recursive-descent parser of the JSON grammar. A number is kept as
  its sign, integer part, fraction digits and exponent. The fuel bounds the number
  of nested and consecutive values; \<open>JSON_parse\<close> supplies the length of the text.
  \<open>None\<close> is the \<open>SyntaxError\<close>.
\<close>

datatype json =
    JNull
  | JBool bool
  | JNumber bool nat "nat list" "int option"
  | JString jsstring
  | JArray "json list"
  | JObject "(jsstring \<times> json) list"

definition isJSONWhiteSpace :: "16 word \<Rightarrow> bool" where
  "isJSONWhiteSpace c = (c = 9 \<or> c = 10 \<or> c = 13 \<or> c = 32)"

definition skipWS :: "jsstring \<Rightarrow> jsstring" where
  "skipWS s = dropWhile isJSONWhiteSpace s"

definition isDigit :: "16 word \<Rightarrow> bool" where
  "isDigit c = (48 \<le> c \<and> c \<le> 57)"

definition digitVal :: "16 word \<Rightarrow> nat" where
  "digitVal c = unat c - 48"

definition decimal :: "nat list \<Rightarrow> nat" where
  "decimal ds = foldl (\<lambda>a d. 10 * a + d) 0 ds"

definition hexVal :: "16 word \<Rightarrow> nat option" where
  "hexVal c =
     (if 48 \<le> c \<and> c \<le> 57 then Some (unat c - 48)
      else if 97 \<le> c \<and> c \<le> 102 then Some (unat c - 87)
      else if 65 \<le> c \<and> c \<le> 70 then Some (unat c - 55)
      else None)"

definition simpleEscape :: "16 word \<Rightarrow> 16 word option" where
  "simpleEscape e =
     (if e = 34 then Some 34
      else if e = 92 then Some 92
      else if e = 47 then Some 47
      else if e = 98 then Some 8
      else if e = 102 then Some 12
      else if e = 110 then Some 10
      else if e = 114 then Some 13
      else if e = 116 then Some 9
      else None)"

definition hex4 :: "16 word \<Rightarrow> 16 word \<Rightarrow> 16 word \<Rightarrow> 16 word \<Rightarrow> 16 word option" where
  "hex4 h1 h2 h3 h4 =
     (case (hexVal h1, hexVal h2, hexVal h3, hexVal h4) of
        (Some a, Some b, Some c, Some d) \<Rightarrow> Some (of_nat (a * 4096 + b * 256 + c * 16 + d))
      | _ \<Rightarrow> None)"

definition consUnit :: "16 word \<Rightarrow> (jsstring \<times> jsstring) option \<Rightarrow> (jsstring \<times> jsstring) option" where
  "consUnit c r = map_option (\<lambda>(s, rest). (c # s, rest)) r"

text \<open>The characters after an opening quote, up to and including the closing quote.\<close>

fun parseStringBody :: "jsstring \<Rightarrow> (jsstring \<times> jsstring) option" where
  "parseStringBody [] = None"
| "parseStringBody (c # cs) =
     (if c = 34 then Some ([], cs)
      else if c = 92 then
        (case cs of
           [] \<Rightarrow> None
         | e # es \<Rightarrow>
             if e = 117 then
               (case es of
                  h1 # h2 # h3 # h4 # rest \<Rightarrow>
                    (case hex4 h1 h2 h3 h4 of
                       None \<Rightarrow> None
                     | Some u \<Rightarrow> consUnit u (parseStringBody rest))
                | _ \<Rightarrow> None)
             else
               (case simpleEscape e of
                  None \<Rightarrow> None
                | Some u \<Rightarrow> consUnit u (parseStringBody es)))
      else if c < 32 then None
      else consUnit c (parseStringBody cs))"

definition parseFraction :: "jsstring \<Rightarrow> (nat list \<times> jsstring) option" where
  "parseFraction s =
     (case s of
        [] \<Rightarrow> Some ([], s)
      | c # t \<Rightarrow>
          if c = 46 then
            (if takeWhile isDigit t = [] then None
             else Some (map digitVal (takeWhile isDigit t), dropWhile isDigit t))
          else Some ([], s))"

definition parseExponentDigits :: "bool \<Rightarrow> jsstring \<Rightarrow> (int option \<times> jsstring) option" where
  "parseExponentDigits neg t =
     (if takeWhile isDigit t = [] then None
      else Some (Some ((if neg then - 1 else 1) * int (decimal (map digitVal (takeWhile isDigit t)))),
                 dropWhile isDigit t))"

definition parseExponent :: "jsstring \<Rightarrow> (int option \<times> jsstring) option" where
  "parseExponent s =
     (case s of
        [] \<Rightarrow> Some (None, s)
      | c # t \<Rightarrow>
          if c = 101 \<or> c = 69 then
            (case t of
               [] \<Rightarrow> None
             | d # u \<Rightarrow>
                 if d = 45 then parseExponentDigits True u
                 else if d = 43 then parseExponentDigits False u
                 else parseExponentDigits False t)
          else Some (None, s))"

definition parseNumberTail :: "bool \<Rightarrow> nat \<Rightarrow> jsstring \<Rightarrow> (json \<times> jsstring) option" where
  "parseNumberTail neg n s =
     (case parseFraction s of
        None \<Rightarrow> None
      | Some (fs, r) \<Rightarrow>
          (case parseExponent r of
             None \<Rightarrow> None
           | Some (e, r') \<Rightarrow> Some (JNumber neg n fs e, r')))"

definition parseUnsigned :: "bool \<Rightarrow> jsstring \<Rightarrow> (json \<times> jsstring) option" where
  "parseUnsigned neg s =
     (case s of
        [] \<Rightarrow> None
      | c # t \<Rightarrow>
          if c = 48 then parseNumberTail neg 0 t
          else if isDigit c then
            parseNumberTail neg (decimal (map digitVal (takeWhile isDigit s))) (dropWhile isDigit s)
          else None)"

definition parseNumber :: "jsstring \<Rightarrow> (json \<times> jsstring) option" where
  "parseNumber s =
     (case s of
        [] \<Rightarrow> None
      | c # t \<Rightarrow> if c = 45 then parseUnsigned True t else parseUnsigned False s)"

fun parseValue :: "nat \<Rightarrow> jsstring \<Rightarrow> (json \<times> jsstring) option"
  and parseElements :: "nat \<Rightarrow> jsstring \<Rightarrow> (json list \<times> jsstring) option"
  and parseMembers :: "nat \<Rightarrow> jsstring \<Rightarrow> ((jsstring \<times> json) list \<times> jsstring) option"
where
  "parseValue 0 s = None"
| "parseValue (Suc n) s =
     (case s of
        [] \<Rightarrow> None
      | c # cs \<Rightarrow>
          if c = 34 then map_option (\<lambda>(t, r). (JString t, r)) (parseStringBody cs)
          else if c = 91 then
            (case skipWS cs of
               [] \<Rightarrow> None
             | d # r \<Rightarrow>
                 if d = 93 then Some (JArray [], r)
                 else map_option (\<lambda>(vs, r'). (JArray vs, r')) (parseElements n (d # r)))
          else if c = 123 then
            (case skipWS cs of
               [] \<Rightarrow> None
             | d # r \<Rightarrow>
                 if d = 125 then Some (JObject [], r)
                 else map_option (\<lambda>(kvs, r'). (JObject kvs, r')) (parseMembers n (d # r)))
          else if startsWith s (js ''true'') then Some (JBool True, drop 4 s)
          else if startsWith s (js ''false'') then Some (JBool False, drop 5 s)
          else if startsWith s (js ''null'') then Some (JNull, drop 4 s)
          else parseNumber s)"
| "parseElements 0 s = None"
| "parseElements (Suc n) s =
     (case parseValue n s of
        None \<Rightarrow> None
      | Some (v, r) \<Rightarrow>
          (case skipWS r of
             [] \<Rightarrow> None
           | d # r' \<Rightarrow>
               if d = 93 then Some ([v], r')
               else if d = 44 then
                 map_option (\<lambda>(vs, r''). (v # vs, r'')) (parseElements n (skipWS r'))
               else None))"
| "parseMembers 0 s = None"
| "parseMembers (Suc n) s =
     (case s of
        [] \<Rightarrow> None
      | c # cs \<Rightarrow>
          if c \<noteq> 34 then None
          else
            (case parseStringBody cs of
               None \<Rightarrow> None
             | Some (k, r) \<Rightarrow>
                 (case skipWS r of
                    [] \<Rightarrow> None
                  | d # r1 \<Rightarrow>
                      if d \<noteq> 58 then None
                      else
                        (case parseValue n (skipWS r1) of
                           None \<Rightarrow> None
                         | Some (v, r2) \<Rightarrow>
                             (case skipWS r2 of
                                [] \<Rightarrow> None
                              | e # r3 \<Rightarrow>
                                  if e = 125 then Some ([(k, v)], r3)
                                  else if e = 44 then
                                    map_option (\<lambda>(kvs, r4). ((k, v) # kvs, r4))
                                      (parseMembers n (skipWS r3))
                                  else None)))))"

definition JSON_parse :: "jsstring \<Rightarrow> json option" where
  "JSON_parse s =
     (case parseValue (Suc (length s)) (skipWS s) of
        None \<Rightarrow> None
      | Some (v, r) \<Rightarrow> if skipWS r = [] then Some v else None)"

text \<open>
  The values that are arrays of memory objects as \<open>handleAddMemory\<close> builds them:
  the three properties in creation order, the id an integer literal. The literal is
  read as the integer it denotes, which is what a JavaScript number holds for every
  integer up to \<open>2\<^sup>5\<^sup>3\<close>, the values of \<open>Date.now()\<close> among them. Any other value
  that \<open>JSON.parse\<close> returns is outside the typed state of this model.
\<close>

fun asInteger :: "json \<Rightarrow> int option" where
  "asInteger (JNumber neg n [] None) = Some (if neg then - int n else int n)"
| "asInteger v = None"

fun asString :: "json \<Rightarrow> jsstring option" where
  "asString (JString t) = Some t"
| "asString v = None"

definition asMemory :: "json \<Rightarrow> memory option" where
  "asMemory v =
     (case v of
        JObject [(k1, a), (k2, b), (k3, c)] \<Rightarrow>
          if k1 = js ''id'' \<and> k2 = js ''text'' \<and> k3 = js ''timestamp'' then
            (case (asInteger a, asString b, asString c) of
               (Some i, Some t, Some s) \<Rightarrow> Some \<lparr>m_id = i, m_text = t, m_timestamp = s\<rparr>
             | _ \<Rightarrow> None)
          else None
      | _ \<Rightarrow> None)"

fun asMemories :: "json \<Rightarrow> memory list option" where
  "asMemories (JArray vs) = those (map asMemory vs)"
| "asMemories v = None"

text \<open>
  The first thing every render does with the state is
  \<open>memories.filter(memory => memory.text.toLowerCase().includes(...))\<close>. On a parsed
  value it throws a \<open>TypeError\<close> when the value is not an array (it has no \<open>filter\<close>)
  and when an element is not an object whose \<open>text\<close> is a string (\<open>memory.text\<close> is
  then read from \<open>null\<close>, or has no \<open>toLowerCase\<close>). Of a repeated key in an object
  \<open>JSON.parse\<close> keeps the last value.
\<close>

fun hasStringText :: "json \<Rightarrow> bool" where
  "hasStringText (JObject kvs) =
     (case map_of (rev kvs) (js ''text'') of
        Some (JString t) \<Rightarrow> True
      | _ \<Rightarrow> False)"
| "hasStringText v = False"

fun filterThrows :: "json \<Rightarrow> bool" where
  "filterThrows (JArray vs) = (\<not> list_all hasStringText vs)"
| "filterThrows v = True"

text \<open>The value that \<open>JSON.parse\<close> returns for the text of a memory object.\<close>

definition jsonOfMemory :: "memory \<Rightarrow> json" where
  "jsonOfMemory m =
     JObject [(js ''id'', JNumber (m_id m < 0) (nat \<bar>m_id m\<bar>) [] None),
              (js ''text'', JString (m_text m)),
              (js ''timestamp'', JString (m_timestamp m))]"

section \<open>Effects and the render cycle\<close>

text \<open>
  What a run of the component's code ends in: normally, with an uncaught error, or
  with a parsed value in the state that is not an array of memory objects.
\<close>

datatype 'a outcome = Normal 'a | Crash js_error | Foreign json

definition storageKey :: jsstring where
  "storageKey = js ''gajni-memories''"

text \<open>The effect that loads the memories; it returns the calls it makes.\<close>

definition loadEffect :: "storage \<Rightarrow> action list outcome" where
  "loadEffect st =
     (case getItem st storageKey of
        Inl error \<Rightarrow>
          Normal [ConsoleError (js ''Failed to load memories from local storage'') (Exn error)]
      | Inr None \<Rightarrow> Normal []
      | Inr (Some savedMemories) \<Rightarrow>
          if savedMemories = [] then Normal []
          else
            (case JSON_parse savedMemories of
               None \<Rightarrow>
                 Normal [ConsoleError (js ''Failed to load memories from local storage'')
                           (Exn SyntaxError)]
             | Some v \<Rightarrow>
                 (case asMemories v of
                    Some ms \<Rightarrow> Normal [SetMemories ms]
                  | None \<Rightarrow> Foreign v)))"

text \<open>The effect that saves the memories of the current render.\<close>

definition saveEffect :: "world \<Rightarrow> world \<times> action list" where
  "saveEffect w =
     (case setItem (localStorage w) storageKey (JSON_stringify (memories w)) of
        Inl error \<Rightarrow>
          (w, [ConsoleError (js ''Failed to save memories from local storage'') (Exn error)])
      | Inr st \<Rightarrow> (w\<lparr>localStorage := st\<rparr>, []))"

text \<open>What one call does to the state and to the recognition instance.\<close>

fun perform :: "world \<Rightarrow> action \<Rightarrow> world" where
  "perform w (SetMemories ms) = w\<lparr>memories := ms\<rparr>"
| "perform w (SetNewMemory t) = w\<lparr>newMemory := t\<rparr>"
| "perform w (SetSearchTerm t) = w\<lparr>searchTerm := t\<rparr>"
| "perform w (SetIsListening b) = w\<lparr>isListening := b\<rparr>"
| "perform w (SetLanguage l) = w\<lparr>language := l\<rparr>"
| "perform w (SetVoices vs) = w\<lparr>voices := vs\<rparr>"
| "perform w (SetAudioLevel x) = w\<lparr>audioLevel := x\<rparr>"
| "perform w (RecognitionLang l) =
     w\<lparr>recognition := map_option (\<lambda>r. r\<lparr>rec_lang := l\<rparr>) (recognition w)\<rparr>"
| "perform w a = w"

text \<open>
  After the calls of a handler React renders again and runs the effects whose
  dependencies changed, in source order: the recognition effect when \<open>isListening\<close>
  changed (with an instance and listening off it calls \<open>setAudioLevel(0)\<close>), then the
  save effect when \<open>setMemories\<close> was called (every call passes a fresh array). \<open>old\<close> is
  the world before the calls. The result holds the calls the effects made.
\<close>

definition rerender :: "world \<Rightarrow> action list \<Rightarrow> world \<Rightarrow> world \<times> action list" where
  "rerender old calls w =
     (let reset = (if isListening w \<noteq> isListening old \<and> recognition w \<noteq> None
                      \<and> \<not> isListening w
                   then [SetAudioLevel 0] else []);
          w' = foldl perform w reset
      in if list_ex isSetMemories calls
         then (case saveEffect w' of (w'', out) \<Rightarrow> (w'', reset @ out))
         else (w', reset))"

definition dispatch :: "world \<Rightarrow> action list \<Rightarrow> world \<times> action list" where
  "dispatch w calls =
     (case rerender w calls (foldl perform w calls) of (w', out) \<Rightarrow> (w', calls @ out))"

section \<open>Events\<close>

datatype languageOption = English | Urdu

fun optionValue :: "languageOption \<Rightarrow> jsstring" where
  "optionValue English = js ''en-US''"
| "optionValue Urdu = js ''ur-PK''"

text \<open>
  The events the component reacts to. \<open>Submit\<close> carries the clock reading and the
  locale string of the moment, \<open>RecognitionResult\<close> the transcript of the last
  result, \<open>VoicesChanged\<close> the list \<open>getVoices()\<close> returns, \<open>AudioTick\<close> the random level
  drawn by the interval.
\<close>

datatype event =
    Submit int jsstring
  | DeleteClick int
  | SpeakClick jsstring
  | MicClick
  | DraftChange jsstring
  | SearchChange jsstring
  | LanguageChange languageOption
  | RecognitionResult jsstring
  | RecognitionError jsstring
  | RecognitionEnd
  | VoicesChanged "voice list"
  | AudioTick real

definition loadVoices :: "voice list \<Rightarrow> action list" where
  "loadVoices availableVoices =
     (if length availableVoices > 0 then [SetVoices availableVoices] else [])"

text \<open>
  The recognition callbacks exist only when the instance does, and the interval
  only while listening.
\<close>

fun handle :: "world \<Rightarrow> event \<Rightarrow> action list" where
  "handle w (Submit now stamp) = handleAddMemory w now stamp"
| "handle w (DeleteClick i) = handleDeleteMemory w i"
| "handle w (SpeakClick t) = handleSpeak w t"
| "handle w MicClick = handleListen w"
| "handle w (DraftChange t) = [SetNewMemory t]"
| "handle w (SearchChange t) = [SetSearchTerm t]"
| "handle w (LanguageChange l) = [SetLanguage (optionValue l)]"
| "handle w (RecognitionResult transcript) =
     (if recognition w = None then [] else [SetNewMemory transcript, SetIsListening False])"
| "handle w (RecognitionError err) =
     (if recognition w = None then []
      else [ConsoleError (js ''Speech recognition error'') (Str err), SetIsListening False])"
| "handle w RecognitionEnd =
     (if recognition w = None then [] else [SetIsListening False])"
| "handle w (VoicesChanged vs) = loadVoices vs"
| "handle w (AudioTick x) =
     (if recognition w \<noteq> None \<and> isListening w then [SetAudioLevel x] else [])"

definition step :: "world \<Rightarrow> event \<Rightarrow> world \<times> action list" where
  "step w ev = dispatch w (handle w ev)"

section \<open>Startup\<close>

text \<open>
  What the browser provides when the component mounts: whether a
  \<open>SpeechRecognition\<close> constructor and \<open>speechSynthesis\<close> exist, the voices
  \<open>getVoices()\<close> returns at that time, and the local storage.
\<close>

record env =
  env_recognition :: bool
  env_synthesis :: bool
  env_voices :: "voice list"
  env_storage :: storage

definition initialWorld :: "env \<Rightarrow> world" where
  "initialWorld e =
     \<lparr>memories = [], newMemory = [], searchTerm = [], isListening = False,
      language = js ''en-US'', voices = [], audioLevel = 0,
      recognition =
        (if env_recognition e
         then Some \<lparr>rec_continuous = False, rec_interimResults = False, rec_lang = []\<rparr>
         else None),
      hasSpeechSynthesis = env_synthesis e,
      localStorage = env_storage e\<rparr>"

text \<open>
  The first render and its effects, in source order: the voices effect (it calls
  \<open>window.speechSynthesis.getVoices()\<close> unguarded), the recognition effect, the load
  effect, the save effect of the first render (with the empty list); then the
  render caused by the calls they made.
\<close>

definition mount :: "env \<Rightarrow> (world \<times> action list) outcome" where
  "mount e =
     (if \<not> env_synthesis e then Crash TypeError
      else
        (case loadEffect (env_storage e) of
           Crash error \<Rightarrow> Crash error
         | Foreign v \<Rightarrow> Foreign v
         | Normal loaded \<Rightarrow>
             (let w0 = initialWorld e;
                  calls = loadVoices (env_voices e)
                          @ (if recognition w0 = None then [] else [SetAudioLevel 0])
                          @ loaded
              in case saveEffect w0 of
                   (w1, out1) \<Rightarrow>
                     (case rerender w1 calls (foldl perform w1 calls) of
                        (w2, out2) \<Rightarrow> Normal (w2, calls @ out1 @ out2)))))"

inductive reachable :: "world \<Rightarrow> bool" where
  reachable_mount: "mount e = Normal (w, out) \<Longrightarrow> reachable w"
| reachable_step: "reachable w \<Longrightarrow> reachable (fst (step w ev))"

section \<open>The rendered list\<close>

text \<open>
  The body of \<open>ul.memory-list\<close>: the items, or one of the two messages.
\<close>

datatype listView =
    Items "memory list"
  | NoResults jsstring
  | EmptyState

definition renderList :: "(jsstring \<Rightarrow> jsstring) \<Rightarrow> world \<Rightarrow> listView" where
  "renderList toLowerCase w =
     (if length (filteredMemories toLowerCase w) > 0 then Items (filteredMemories toLowerCase w)
      else if searchTerm w \<noteq> [] then NoResults (searchTerm w)
      else EmptyState)"

section \<open>Sequences of events\<close>

text \<open>Running a sequence of events, each one followed by its render.\<close>

definition run :: "world \<Rightarrow> event list \<Rightarrow> world" where
  "run w evs = foldl (\<lambda>w' ev. fst (step w' ev)) w evs"

text \<open>
  An add operation: the draft is typed or dictated into the input, then the form is
  submitted. It is given by the draft, the clock reading and the locale string.
\<close>

fun addEvents :: "(jsstring \<times> int \<times> jsstring) list \<Rightarrow> event list" where
  "addEvents [] = []"
| "addEvents ((draft, now, stamp) # ops) = DraftChange draft # Submit now stamp # addEvents ops"

fun added :: "jsstring \<times> int \<times> jsstring \<Rightarrow> memory" where
  "added (draft, now, stamp) = \<lparr>m_id = now, m_text = draft, m_timestamp = stamp\<rparr>"

fun clock :: "jsstring \<times> int \<times> jsstring \<Rightarrow> int" where
  "clock (draft, now, stamp) = now"

fun nonBlank :: "jsstring \<times> int \<times> jsstring \<Rightarrow> bool" where
  "nonBlank (draft, now, stamp) = (\<not> list_all isWhiteSpace draft)"

section \<open>Worlds used in examples\<close>

definition exampleEnv :: env where
  "exampleEnv =
     \<lparr>env_recognition = True, env_synthesis = True, env_voices = [],
      env_storage = \<lparr>entries = [], quota = 5000000, accessible = True\<rparr>\<rparr>"

definition exampleWorld :: world where
  "exampleWorld = initialWorld exampleEnv"

text \<open>Two add operations that read the same clock value, and two that do not.\<close>

definition sameClockAdds :: "(jsstring \<times> int \<times> jsstring) list" where
  "sameClockAdds =
     [(js ''a'', 1700000000000, js ''1/1/2024''), (js ''b'', 1700000000000, js ''1/1/2024'')]"

definition laterClockAdds :: "(jsstring \<times> int \<times> jsstring) list" where
  "laterClockAdds =
     [(js ''a'', 1700000000000, js ''1/1/2024''), (js ''b'', 1700000000001, js ''1/1/2024'')]"

text \<open>
  \<open>String.prototype.toLowerCase\<close> is a parameter of \<open>filteredMemories\<close>. On a string
  of ASCII code units it is the following function, which instantiates the parameter
  in examples.
\<close>

definition lowerASCII :: "jsstring \<Rightarrow> jsstring" where
  "lowerASCII s = map (\<lambda>c. if 65 \<le> c \<and> c \<le> 90 then c + 32 else c) s"

text \<open>
  \<open>toLowerCase\<close> as ECMA-262 defines it (the Unicode default case conversion with the
  context-sensitive mappings of SpecialCasing), on strings of Basic Latin and of the
  Greek capital and small letters; other code units are left as they are. A capital
  letter goes to its small letter, 32 code points up. The one context-sensitive
  mapping in this range is Final_Sigma: a capital sigma (U+03A3) goes to the final
  small sigma (U+03C2) when a cased letter stands before it, with nothing but
  case-ignorable characters in between, and no cased letter stands after it in the
  same way; otherwise it goes to the small sigma (U+03C3). The case-ignorable
  characters of the range are the apostrophe, the full stop, the colon, the
  circumflex and the grave accent.
\<close>

definition isCased :: "16 word \<Rightarrow> bool" where
  "isCased c =
     ((65 \<le> c \<and> c \<le> 90) \<or> (97 \<le> c \<and> c \<le> 122)
      \<or> (913 \<le> c \<and> c \<le> 937 \<and> c \<noteq> 930) \<or> (945 \<le> c \<and> c \<le> 969))"

definition isCaseIgnorable :: "16 word \<Rightarrow> bool" where
  "isCaseIgnorable c = (c = 39 \<or> c = 46 \<or> c = 58 \<or> c = 94 \<or> c = 96)"

definition followedByCased :: "jsstring \<Rightarrow> bool" where
  "followedByCased s =
     (case dropWhile isCaseIgnorable s of
        [] \<Rightarrow> False
      | c # cs \<Rightarrow> isCased c)"

definition lowerUnit :: "16 word \<Rightarrow> 16 word" where
  "lowerUnit c =
     (if (65 \<le> c \<and> c \<le> 90) \<or> (913 \<le> c \<and> c \<le> 937 \<and> c \<noteq> 930) then c + 32 else c)"

text \<open>\<open>before\<close> says that a cased letter stands before the unit in the way above.\<close>

fun lowerUnits :: "bool \<Rightarrow> jsstring \<Rightarrow> jsstring" where
  "lowerUnits before [] = []"
| "lowerUnits before (c # cs) =
     (if c = 931 then (if before \<and> \<not> followedByCased cs then 962 else 963)
      else lowerUnit c)
     # lowerUnits (if isCaseIgnorable c then before else isCased c) cs"

definition lowerJS :: "jsstring \<Rightarrow> jsstring" where
  "lowerJS s = lowerUnits False s"

definition isASCII :: "jsstring \<Rightarrow> bool" where
  "isASCII s = list_all (\<lambda>c. c < 128) s"

definition buyMilk :: memory where
  "buyMilk = \<lparr>m_id = 1700000000000, m_text = js ''Buy Milk'', m_timestamp = js ''1/1/2024''\<rparr>"

text \<open>A browser without \<open>SpeechRecognition\<close>, and the world its mount ends in.\<close>

definition noRecognitionEnv :: env where
  "noRecognitionEnv =
     \<lparr>env_recognition = False, env_synthesis = True, env_voices = [],
      env_storage = \<lparr>entries = [], quota = 5000000, accessible = True\<rparr>\<rparr>"

definition noRecognitionWorld :: world where
  "noRecognitionWorld =
     \<lparr>memories = [], newMemory = [], searchTerm = [], isListening = False,
      language = js ''en-US'', voices = [], audioLevel = 0,
      recognition = None, hasSpeechSynthesis = True,
      localStorage = \<lparr>entries = [(js ''gajni-memories'', [91, 93])], quota = 5000000,
                      accessible = True\<rparr>\<rparr>"

text \<open>Four voices, and a world that has them.\<close>

definition urduVoice :: voice where
  "urduVoice = \<lparr>voice_name = js ''Uzma'', voice_lang = js ''ur-PK''\<rparr>"

definition britishVoice :: voice where
  "britishVoice = \<lparr>voice_name = js ''Daniel'', voice_lang = js ''en-GB''\<rparr>"

definition firstAmericanVoice :: voice where
  "firstAmericanVoice = \<lparr>voice_name = js ''Samantha'', voice_lang = js ''en-US''\<rparr>"

definition secondAmericanVoice :: voice where
  "secondAmericanVoice = \<lparr>voice_name = js ''Alex'', voice_lang = js ''en-US''\<rparr>"

text \<open>
  A world whose storage accepts no data (quota zero) and whose draft is not blank;
  and a browser whose storage holds a text that is not JSON.
\<close>

definition fullStorageWorld :: world where
  "fullStorageWorld =
     exampleWorld\<lparr>newMemory := js ''a'',
                   localStorage := \<lparr>entries = [], quota = 0, accessible = True\<rparr>\<rparr>"

definition corruptEnv :: env where
  "corruptEnv =
     \<lparr>env_recognition = True, env_synthesis = True, env_voices = [],
      env_storage = \<lparr>entries = [(js ''gajni-memories'', js ''{oops'')], quota = 5000000,
                     accessible = True\<rparr>\<rparr>"

text \<open>
  A collection in which an id occurs twice and another id once; a memory whose text
  is the two Greek capitals alpha and sigma; and a browser whose storage holds the
  text \<open>null\<close>.
\<close>

definition mixedWorld :: world where
  "mixedWorld =
     exampleWorld
       \<lparr>memories :=
          [\<lparr>m_id = 1700000000001, m_text = js ''c'', m_timestamp = js ''1/1/2024''\<rparr>,
           \<lparr>m_id = 1700000000000, m_text = js ''b'', m_timestamp = js ''1/1/2024''\<rparr>,
           \<lparr>m_id = 1700000000000, m_text = js ''a'', m_timestamp = js ''1/1/2024''\<rparr>]\<rparr>"

definition alphaSigma :: memory where
  "alphaSigma = \<lparr>m_id = 1700000000000, m_text = [913, 931], m_timestamp = js ''1/1/2024''\<rparr>"

definition nullEnv :: env where
  "nullEnv =
     \<lparr>env_recognition = True, env_synthesis = True, env_voices = [],
      env_storage = \<lparr>entries = [(js ''gajni-memories'', js ''null'')], quota = 5000000,
                     accessible = True\<rparr>\<rparr>"

section \<open>Basic facts\<close>

lemma dropWhile_all_iff: "(\<forall>x \<in> set (dropWhile P s). P x) \<longleftrightarrow> dropWhile P s = []"
proof (cases "dropWhile P s")
  case Nil
  show ?thesis unfolding Nil by simp
next
  case (Cons a list)
  then have "\<not> P a" using hd_dropWhile[of P s] by auto
  with Cons show ?thesis by auto
qed

lemma trim_Nil_iff: "trim s = [] \<longleftrightarrow> list_all isWhiteSpace s"
proof -
  have "trim s = [] \<longleftrightarrow> dropWhile isWhiteSpace (rev (dropWhile isWhiteSpace s)) = []"
    by (simp add: trim_def)
  also have "\<dots> \<longleftrightarrow> (\<forall>x \<in> set (dropWhile isWhiteSpace s). isWhiteSpace x)"
    unfolding dropWhile_eq_Nil_conv by simp
  also have "\<dots> \<longleftrightarrow> dropWhile isWhiteSpace s = []"
    by (rule dropWhile_all_iff)
  also have "\<dots> \<longleftrightarrow> list_all isWhiteSpace s"
    unfolding dropWhile_eq_Nil_conv list_all_iff ..
  finally show ?thesis .
qed

lemma truncate_saveEffect: "state.truncate (fst (saveEffect w)) = state.truncate w"
  by (simp add: saveEffect_def state.truncate_def split: sum.splits)

lemma memories_saveEffect: "memories (fst (saveEffect w)) = memories w"
  by (simp add: saveEffect_def split: sum.splits)

lemma memories_rerender: "memories (fst (rerender old calls w)) = memories w"
  by (simp add: rerender_def Let_def split_beta memories_saveEffect)

lemma memories_dispatch: "memories (fst (dispatch w calls)) = memories (foldl perform w calls)"
  by (simp add: dispatch_def split_beta memories_rerender)

lemma step_Submit_blank:
  "list_all isWhiteSpace (newMemory w) \<Longrightarrow>
   step w (Submit now stamp) = (w, [PreventDefault, Alert (js ''Please enter a memory!'')])"
  by (simp add: step_def dispatch_def rerender_def handleAddMemory_def trim_Nil_iff)

lemma memories_step_Submit:
  "memories (fst (step w (Submit now stamp))) =
     (if list_all isWhiteSpace (newMemory w) then memories w
      else \<lparr>m_id = now, m_text = newMemory w, m_timestamp = stamp\<rparr> # memories w)"
  by (simp add: step_def memories_dispatch handleAddMemory_def trim_Nil_iff)

lemma memories_step_Delete:
  "memories (fst (step w (DeleteClick i))) = filter (\<lambda>m. m_id m \<noteq> i) (memories w)"
  by (simp add: step_def memories_dispatch handleDeleteMemory_def)

lemma step_DraftChange: "step w (DraftChange d) = (w\<lparr>newMemory := d\<rparr>, [SetNewMemory d])"
  by (simp add: step_def dispatch_def rerender_def)

lemma run_Nil: "run w [] = w"
  by (simp add: run_def)

lemma run_Cons: "run w (ev # evs) = run (fst (step w ev)) evs"
  by (simp add: run_def)

lemma memories_add:
  "nonBlank op \<Longrightarrow> memories (run w (addEvents [op])) = added op # memories w"
  by (cases op) (simp add: run_Cons run_Nil step_DraftChange memories_step_Submit)

lemma memories_run_addEvents:
  "list_all nonBlank ops \<Longrightarrow>
   memories (run w (addEvents ops)) = rev (map added ops) @ memories w"
proof (induction ops arbitrary: w)
  case Nil
  then show ?case by (simp add: run_Nil)
next
  case (Cons op ops)
  obtain draft now stamp where op: "op = (draft, now, stamp)" by (cases op) auto
  let ?w = "fst (step (fst (step w (DraftChange draft))) (Submit now stamp))"
  have "memories ?w = added op # memories w"
    using Cons.prems by (simp add: op step_DraftChange memories_step_Submit)
  moreover have "memories (run ?w (addEvents ops)) = rev (map added ops) @ memories ?w"
    using Cons.prems by (intro Cons.IH) simp
  ultimately show ?case by (simp add: op run_Cons)
qed

lemma m_id_added: "m_id (added op) = clock op"
  by (cases op) simp

lemma startsWith_iff: "startsWith s p \<longleftrightarrow> (\<exists>post. s = p @ post)"
  by (induction s p rule: startsWith.induct) auto

lemma includes_js_iff: "includes_js s p \<longleftrightarrow> (\<exists>pre post. s = pre @ p @ post)"
proof (induction s)
  case Nil
  then show ?case by simp
next
  case (Cons c cs)
  have "(\<exists>pre post. c # cs = pre @ p @ post)
        \<longleftrightarrow> (\<exists>post. c # cs = p @ post) \<or> (\<exists>pre post. cs = pre @ p @ post)"
  proof
    assume "\<exists>pre post. c # cs = pre @ p @ post"
    then obtain pre post where eq: "c # cs = pre @ p @ post" by blast
    show "(\<exists>post. c # cs = p @ post) \<or> (\<exists>pre post. cs = pre @ p @ post)"
    proof (cases pre)
      case Nil
      with eq show ?thesis by auto
    next
      case (Cons a pre')
      with eq have "cs = pre' @ p @ post" by simp
      then show ?thesis by blast
    qed
  next
    assume "(\<exists>post. c # cs = p @ post) \<or> (\<exists>pre post. cs = pre @ p @ post)"
    then show "\<exists>pre post. c # cs = pre @ p @ post"
    proof
      assume "\<exists>post. c # cs = p @ post"
      then obtain post where "c # cs = [] @ p @ post" by auto
      then show ?thesis by blast
    next
      assume "\<exists>pre post. cs = pre @ p @ post"
      then obtain pre post where "c # cs = (c # pre) @ p @ post" by auto
      then show ?thesis by blast
    qed
  qed
  with Cons show ?case by (simp add: startsWith_iff)
qed

lemma includes_js_Nil: "includes_js s []"
  by (induction s) auto

lemma map_substring:
  "(\<exists>pre post. map g s = pre @ map g f @ post)
   \<longleftrightarrow> (\<exists>a b c. s = a @ b @ c \<and> map g b = map g f)"
proof
  assume "\<exists>pre post. map g s = pre @ map g f @ post"
  then obtain pre post where "map g s = pre @ (map g f @ post)" by auto
  then obtain a bc where 1: "s = a @ bc" and bc: "map g f @ post = map g bc"
    unfolding map_eq_append_conv by blast
  from bc [symmetric] obtain b c where 2: "bc = b @ c" and b: "map g f = map g b"
    unfolding map_eq_append_conv by blast
  from 1 2 b have "s = a @ b @ c \<and> map g b = map g f"
    by simp
  then show "\<exists>a b c. s = a @ b @ c \<and> map g b = map g f" by blast
next
  assume "\<exists>a b c. s = a @ b @ c \<and> map g b = map g f"
  then obtain a b c where "s = a @ b @ c" "map g b = map g f" by blast
  then have "map g s = map g a @ map g f @ map g c" by simp
  then show "\<exists>pre post. map g s = pre @ map g f @ post" by blast
qed

lemma substring_lowerASCII:
  "(\<exists>pre post. lowerASCII s = pre @ lowerASCII f @ post)
   \<longleftrightarrow> (\<exists>a b c. s = a @ b @ c \<and> lowerASCII b = lowerASCII f)"
  unfolding lowerASCII_def by (rule map_substring)

lemma lowerUnits_ASCII: "isASCII s \<Longrightarrow> lowerUnits before s = lowerASCII s"
proof (induction s arbitrary: before)
  case Nil
  show ?case by (simp add: lowerASCII_def)
next
  case (Cons c cs)
  then have c: "c < 128" and cs: "isASCII cs"
    by (simp_all add: isASCII_def)
  from c have "c \<noteq> 931" and "lowerUnit c = (if 65 \<le> c \<and> c \<le> 90 then c + 32 else c)"
    by (auto simp: lowerUnit_def word_le_nat_alt word_less_nat_alt)
  then show ?case
    using Cons.IH [OF cs] by (simp add: lowerASCII_def)
qed

lemma lowerJS_ASCII: "isASCII s \<Longrightarrow> lowerJS s = lowerASCII s"
  by (simp add: lowerJS_def lowerUnits_ASCII)

lemma filter_single_id:
  "list_all (\<lambda>x. m_id x \<noteq> m_id m) (pre @ post) \<Longrightarrow>
   filter (\<lambda>x. m_id x \<noteq> m_id m) (pre @ m # post) = pre @ post"
  by (simp add: list_all_iff)

lemma find_first:
  "P v \<Longrightarrow> \<forall>u \<in> set pre. \<not> P u \<Longrightarrow> List.find P (pre @ v # post) = Some v"
  by (induction pre) auto

lemma step_SpeakClick: "step w (SpeakClick t) = (w, handleSpeak w t)"
proof -
  have "foldl perform w (handleSpeak w t) = w"
    by (simp add: handleSpeak_def split: option.splits)
  moreover have "\<not> list_ex isSetMemories (handleSpeak w t)"
    by (simp add: handleSpeak_def split: option.splits)
  ultimately show ?thesis
    by (simp add: step_def dispatch_def rerender_def)
qed

lemma isListening_saveEffect: "isListening (fst (saveEffect w)) = isListening w"
  by (simp add: saveEffect_def split: sum.splits)

lemma recognition_saveEffect: "recognition (fst (saveEffect w)) = recognition w"
  by (simp add: saveEffect_def split: sum.splits)

lemma isListening_rerender: "isListening (fst (rerender old calls w)) = isListening w"
  by (simp add: rerender_def Let_def split_beta isListening_saveEffect)

lemma recognition_rerender: "recognition (fst (rerender old calls w)) = recognition w"
  by (simp add: rerender_def Let_def split_beta recognition_saveEffect)

lemma recognition_perform: "recognition (perform w a) = None \<longleftrightarrow> recognition w = None"
  by (cases a) simp_all

lemma recognition_foldl_perform:
  "recognition (foldl perform w calls) = None \<longleftrightarrow> recognition w = None"
  by (induction calls arbitrary: w) (simp_all add: recognition_perform)

lemma recognition_step: "recognition (fst (step w ev)) = None \<longleftrightarrow> recognition w = None"
  by (simp add: step_def dispatch_def split_beta recognition_rerender recognition_foldl_perform)

lemma isListening_perform: "\<not> setsListening a \<Longrightarrow> isListening (perform w a) = isListening w"
  by (cases a) simp_all

lemma isListening_foldl_perform:
  "\<not> list_ex setsListening calls \<Longrightarrow> isListening (foldl perform w calls) = isListening w"
  by (induction calls arbitrary: w) (simp_all add: isListening_perform)

lemma handle_no_recognition:
  "recognition w = None \<Longrightarrow> \<not> list_ex setsListening (handle w ev)"
  by (cases ev)
    (simp_all add: handleAddMemory_def handleDeleteMemory_def handleSpeak_def handleListen_def
      loadVoices_def split: option.splits)

lemma isListening_step_no_recognition:
  "recognition w = None \<Longrightarrow> isListening (fst (step w ev)) = isListening w"
  by (simp add: step_def dispatch_def split_beta isListening_rerender
      isListening_foldl_perform handle_no_recognition)

lemma loadEffect_no_setsListening:
  "loadEffect st = Normal calls \<Longrightarrow> \<not> list_ex setsListening calls"
  by (auto simp: loadEffect_def split: sum.splits option.splits if_splits)

lemma isListening_mount: "mount e = Normal (w, out) \<Longrightarrow> \<not> isListening w"
proof -
  assume m: "mount e = Normal (w, out)"
  then obtain loaded where l: "loadEffect (env_storage e) = Normal loaded"
    by (cases "loadEffect (env_storage e)") (auto simp: mount_def split: if_splits)
  define calls where
    "calls = loadVoices (env_voices e)
             @ (if recognition (initialWorld e) = None then [] else [SetAudioLevel 0]) @ loaded"
  define w1 where "w1 = fst (saveEffect (initialWorld e))"
  have w: "w = fst (rerender w1 calls (foldl perform w1 calls))"
    using m l by (auto simp: mount_def calls_def w1_def Let_def split: if_splits prod.splits)
  have "\<not> list_ex setsListening calls"
    using loadEffect_no_setsListening [OF l] by (simp add: calls_def loadVoices_def)
  then have "isListening w = isListening w1"
    by (simp add: w isListening_rerender isListening_foldl_perform)
  also have "\<dots> = False"
    by (simp add: w1_def isListening_saveEffect initialWorld_def)
  finally show ?thesis by simp
qed

lemma reachable_idle: "reachable w \<Longrightarrow> recognition w = None \<Longrightarrow> \<not> isListening w"
proof (induction rule: reachable.induct)
  case (reachable_mount e w out)
  then show ?case by (simp add: isListening_mount)
next
  case (reachable_step w ev)
  then have "recognition w = None" by (simp add: recognition_step)
  with reachable_step show ?case by (simp add: isListening_step_no_recognition)
qed

lemma step_MicClick_no_recognition:
  "recognition w = None \<Longrightarrow>
   step w MicClick
     = (w, [Alert (js ''Sorry, your browser does not support voice recognition.'')])"
  by (simp add: step_def dispatch_def rerender_def handleListen_def)

subsection \<open>The round trip through JSON\<close>

lemma unat_of_nat_small: "n < 65536 \<Longrightarrow> unat (of_nat n :: 16 word) = n"
  by (simp only: unat_of_nat) simp

lemma unat_digitChar: "d < 10 \<Longrightarrow> unat (digitChar d) = 48 + d"
  unfolding digitChar_def by (rule unat_of_nat_small) simp

lemma isDigit_digitChar: "d < 10 \<Longrightarrow> isDigit (digitChar d)"
  by (simp add: isDigit_def word_le_nat_alt unat_digitChar)

lemma digitVal_digitChar: "d < 10 \<Longrightarrow> digitVal (digitChar d) = d"
  by (simp add: digitVal_def unat_digitChar)

lemma digitChar_eq_48: "d < 10 \<Longrightarrow> digitChar d = 48 \<longleftrightarrow> d = 0"
  by (simp add: word_unat_eq_iff unat_digitChar)

lemma unat_hexChar: "d < 16 \<Longrightarrow> unat (hexChar d) = (if d < 10 then 48 + d else 87 + d)"
  unfolding hexChar_def by (simp add: unat_of_nat_small del: of_nat_add)

lemma hexVal_hexChar: "d < 16 \<Longrightarrow> hexVal (hexChar d) = Some d"
  by (simp add: hexVal_def word_le_nat_alt unat_hexChar)

lemma hex_digits_sum:
  "(n::nat) div 4096 * 4096 + n div 256 mod 16 * 256 + n div 16 mod 16 * 16 + n mod 16 = n"
proof -
  have a: "n = n div 16 * 16 + n mod 16" by simp
  have b: "n div 16 = n div 256 * 16 + n div 16 mod 16"
    using div_mult_mod_eq [of "n div 16" 16] by (simp add: div_mult2_eq [symmetric])
  have c: "n div 256 = n div 4096 * 16 + n div 256 mod 16"
    using div_mult_mod_eq [of "n div 256" 16] by (simp add: div_mult2_eq [symmetric])
  show ?thesis using a b c by linarith
qed

lemma hex4_unicodeEscape:
  "hex4 (hexChar (unat c div 4096)) (hexChar (unat c div 256 mod 16))
        (hexChar (unat c div 16 mod 16)) (hexChar (unat c mod 16)) = Some c"
proof -
  have lt: "unat c < 65536" using unsigned_less [of c, where ?'a = nat] by simp
  then have a: "unat c div 4096 < 16" by simp
  show ?thesis
    using a by (simp add: hex4_def hexVal_hexChar hex_digits_sum)
qed

lemma parse_escapeUnit: "parseStringBody (escapeUnit c @ r) = consUnit c (parseStringBody r)"
  by (simp add: escapeUnit_def unicodeEscape_def simpleEscape_def hex4_unicodeEscape)

lemma parse_surrogate:
  "isHighSurrogate c \<or> isLowSurrogate c \<Longrightarrow>
   parseStringBody (c # r) = consUnit c (parseStringBody r)"
  by (auto simp: isHighSurrogate_def isLowSurrogate_def word_le_nat_alt word_less_nat_alt)

lemma parse_quoteBody: "parseStringBody (quoteBody s @ 34 # rest) = Some (s, rest)"
proof (induction s rule: quoteBody.induct)
  case 1
  show ?case by simp
next
  case (2 c)
  show ?case by (simp add: parse_escapeUnit consUnit_def)
next
  case (3 c d cs)
  show ?case
  proof (cases "isHighSurrogate c \<and> isLowSurrogate d")
    case True
    then have q: "quoteBody (c # d # cs) = c # d # quoteBody cs" by simp
    from True have "parseStringBody (c # d # quoteBody cs @ 34 # rest)
          = consUnit c (consUnit d (parseStringBody (quoteBody cs @ 34 # rest)))"
      using parse_surrogate [of c "d # quoteBody cs @ 34 # rest"]
        parse_surrogate [of d "quoteBody cs @ 34 # rest"]
      by (simp del: parseStringBody.simps)
    with 3(1) [OF True] show ?thesis by (simp only: q consUnit_def append_Cons) simp
  next
    case False
    then have q: "quoteBody (c # d # cs) = escapeUnit c @ quoteBody (d # cs)" by auto
    show ?thesis
      using 3(2) [OF False] by (simp only: q append_assoc parse_escapeUnit) (simp add: consUnit_def)
  qed
qed

lemma digits_head: "\<exists>c cs. digits n = c # cs \<and> isDigit c \<and> (c = 48 \<longrightarrow> n = 0)"
proof (induction n rule: digits.induct)
  case (1 n)
  show ?case
  proof (cases "n < 10")
    case True
    then show ?thesis
      by (subst digits.simps) (simp add: isDigit_digitChar digitChar_eq_48)
  next
    case False
    with 1 obtain c cs where "digits (n div 10) = c # cs" "isDigit c" "c = 48 \<longrightarrow> n div 10 = 0"
      by blast
    with False show ?thesis
      by (subst digits.simps) auto
  qed
qed

lemma digits_all: "list_all isDigit (digits n)"
proof (induction n rule: digits.induct)
  case (1 n)
  show ?case
  proof (cases "n < 10")
    case True
    then show ?thesis by (subst digits.simps) (simp add: isDigit_digitChar)
  next
    case False
    with 1 show ?thesis by (subst digits.simps) (simp add: isDigit_digitChar)
  qed
qed

lemma decimal_snoc: "decimal (ds @ [d]) = 10 * decimal ds + d"
  by (simp add: decimal_def)

lemma decimal_digits: "decimal (map digitVal (digits n)) = n"
proof (induction n rule: digits.induct)
  case (1 n)
  show ?case
  proof (cases "n < 10")
    case True
    then show ?thesis by (subst digits.simps) (simp add: digitVal_digitChar decimal_def)
  next
    case False
    with 1 show ?thesis by (subst digits.simps) (simp add: digitVal_digitChar decimal_snoc)
  qed
qed

lemma digits_zero: "digits 0 = [48]"
  by (subst digits.simps) (simp add: digitChar_def)

lemma takeWhile_digits: "takeWhile isDigit (digits n @ 44 # r) = digits n"
proof -
  have "\<not> isDigit 44" by (simp add: isDigit_def)
  then show ?thesis
    using digits_all [of n] by (simp add: takeWhile_append2 list_all_iff)
qed

lemma dropWhile_digits: "dropWhile isDigit (digits n @ 44 # r) = 44 # r"
proof -
  have "\<not> isDigit 44" by (simp add: isDigit_def)
  then show ?thesis
    using digits_all [of n] by (simp add: dropWhile_append2 list_all_iff)
qed

lemma parseNumberTail_comma:
  "parseNumberTail neg n (44 # r) = Some (JNumber neg n [] None, 44 # r)"
  by (simp add: parseNumberTail_def parseFraction_def parseExponent_def)

lemma parseUnsigned_digits:
  "parseUnsigned neg (digits n @ 44 # r) = Some (JNumber neg n [] None, 44 # r)"
proof -
  obtain c cs where d: "digits n = c # cs" "isDigit c" "c = 48 \<longrightarrow> n = 0"
    using digits_head by blast
  show ?thesis
  proof (cases "c = 48")
    case True
    with d have "n = 0" by simp
    then show ?thesis by (simp add: digits_zero parseUnsigned_def parseNumberTail_comma)
  next
    case False
    have "parseUnsigned neg (digits n @ 44 # r)
          = parseNumberTail neg (decimal (map digitVal (takeWhile isDigit (digits n @ 44 # r))))
              (dropWhile isDigit (digits n @ 44 # r))"
      using False d by (simp add: parseUnsigned_def)
    then show ?thesis
      by (simp add: takeWhile_digits dropWhile_digits decimal_digits parseNumberTail_comma)
  qed
qed

lemma parseNumber_numberToString:
  "parseNumber (numberToString i @ 44 # r) = Some (JNumber (i < 0) (nat \<bar>i\<bar>) [] None, 44 # r)"
proof (cases "i < 0")
  case True
  then show ?thesis
    by (simp add: numberToString_def parseNumber_def parseUnsigned_digits)
next
  case False
  obtain c cs where d: "digits (nat i) = c # cs" "isDigit c"
    using digits_head by blast
  then have "c \<noteq> 45" by (auto simp: isDigit_def)
  with d False have "parseNumber (numberToString i @ 44 # r)
      = parseUnsigned False (digits (nat i) @ 44 # r)"
    by (simp add: numberToString_def parseNumber_def)
  with False show ?thesis by (simp add: parseUnsigned_digits)
qed

lemma skipWS_Cons: "\<not> isJSONWhiteSpace c \<Longrightarrow> skipWS (c # cs) = c # cs"
  by (simp add: skipWS_def)

lemma numberToString_head:
  "\<exists>c cs. numberToString i = c # cs \<and> (c = 45 \<or> isDigit c)"
proof (cases "i < 0")
  case True
  then show ?thesis by (simp add: numberToString_def)
next
  case False
  then show ?thesis using digits_head [of "nat i"] by (auto simp: numberToString_def)
qed

lemma parseValue_string:
  "parseValue (Suc n) (quoteJSONString s @ rest) = Some (JString s, rest)"
  by (simp add: quoteJSONString_def parse_quoteBody)

lemma parseValue_number:
  "parseValue (Suc n) (numberToString i @ 44 # r)
     = Some (JNumber (i < 0) (nat \<bar>i\<bar>) [] None, 44 # r)"
proof -
  obtain c cs where h: "numberToString i = c # cs" "c = 45 \<or> isDigit c"
    using numberToString_head by blast
  then have c: "c \<noteq> 34" "c \<noteq> 91" "c \<noteq> 123" "c \<noteq> 116" "c \<noteq> 102" "c \<noteq> 110"
    by (auto simp: isDigit_def)
  have "parseValue (Suc n) (c # cs @ 44 # r) = parseNumber (c # cs @ 44 # r)"
    using c by (simp add: js_def)
  then show ?thesis
    using parseNumber_numberToString [of i r] by (simp add: h)
qed

lemma skipWS_number: "skipWS (numberToString i @ r) = numberToString i @ r"
proof -
  obtain c cs where h: "numberToString i = c # cs" "c = 45 \<or> isDigit c"
    using numberToString_head by blast
  then have "\<not> isJSONWhiteSpace c" by (auto simp: isJSONWhiteSpace_def isDigit_def)
  then show ?thesis by (simp add: h skipWS_Cons)
qed

lemma skipWS_quote: "skipWS (quoteJSONString s @ r) = quoteJSONString s @ r"
  by (simp add: quoteJSONString_def skipWS_Cons isJSONWhiteSpace_def)

lemma parseMembers_key:
  "parseMembers (Suc n) (quoteJSONString k @ 58 # r)
     = (case parseValue n (skipWS r) of
          None \<Rightarrow> None
        | Some (v, r2) \<Rightarrow>
            (case skipWS r2 of
               [] \<Rightarrow> None
             | e # r3 \<Rightarrow>
                 if e = 125 then Some ([(k, v)], r3)
                 else if e = 44 then
                   map_option (\<lambda>(kvs, r4). ((k, v) # kvs, r4)) (parseMembers n (skipWS r3))
                 else None))"
  by (simp add: quoteJSONString_def parse_quoteBody skipWS_Cons isJSONWhiteSpace_def)

lemma parseMembers_string_last:
  "parseMembers (Suc (Suc n)) (quoteJSONString k @ 58 # quoteJSONString s @ 125 # rest)
     = Some ([(k, JString s)], rest)"
  apply (simp only: parseMembers_key)
  apply (simp only: skipWS_quote parseValue_string)
  apply (simp add: skipWS_Cons isJSONWhiteSpace_def del: parseMembers.simps parseValue.simps)
  done

lemma parseMembers_string_more:
  "parseMembers (Suc (Suc n))
     (quoteJSONString k @ 58 # quoteJSONString s @ 44 # quoteJSONString k' @ r)
     = map_option (\<lambda>(kvs, r4). ((k, JString s) # kvs, r4))
         (parseMembers (Suc n) (quoteJSONString k' @ r))"
  apply (simp only: parseMembers_key)
  apply (simp only: skipWS_quote parseValue_string)
  apply (simp add: skipWS_Cons isJSONWhiteSpace_def skipWS_quote
      del: parseMembers.simps parseValue.simps)
  done

lemma parseMembers_number_more:
  "parseMembers (Suc (Suc n))
     (quoteJSONString k @ 58 # numberToString i @ 44 # quoteJSONString k' @ r)
     = map_option (\<lambda>(kvs, r4). ((k, JNumber (i < 0) (nat \<bar>i\<bar>) [] None) # kvs, r4))
         (parseMembers (Suc n) (quoteJSONString k' @ r))"
  apply (simp only: parseMembers_key)
  apply (simp only: skipWS_number parseValue_number)
  apply (simp add: skipWS_Cons isJSONWhiteSpace_def skipWS_quote
      del: parseMembers.simps parseValue.simps)
  done

lemma parseMembers_memory:
  "parseMembers (Suc (Suc (Suc (Suc n))))
     (quoteJSONString (js ''id'') @ 58 # numberToString (m_id m)
      @ 44 # quoteJSONString (js ''text'') @ 58 # quoteJSONString (m_text m)
      @ 44 # quoteJSONString (js ''timestamp'') @ 58 # quoteJSONString (m_timestamp m)
      @ 125 # rest)
   = Some ([(js ''id'', JNumber (m_id m < 0) (nat \<bar>m_id m\<bar>) [] None),
            (js ''text'', JString (m_text m)),
            (js ''timestamp'', JString (m_timestamp m))], rest)"
  apply (simp only: parseMembers_number_more)
  apply (simp only: parseMembers_string_more)
  apply (simp only: parseMembers_string_last)
  apply simp
  done

lemma parseValue_memory:
  "parseValue (Suc (Suc (Suc (Suc (Suc n))))) (stringifyMemory m @ rest)
     = Some (jsonOfMemory m, rest)"
proof -
  have q: "\<exists>t. quoteJSONString (js ''id'') = 34 # t"
    by (simp add: quoteJSONString_def)
  then obtain t where t: "quoteJSONString (js ''id'') = 34 # t" by blast
  let ?members = "quoteJSONString (js ''id'') @ 58 # numberToString (m_id m)
      @ 44 # quoteJSONString (js ''text'') @ 58 # quoteJSONString (m_text m)
      @ 44 # quoteJSONString (js ''timestamp'') @ 58 # quoteJSONString (m_timestamp m)
      @ 125 # rest"
  have s: "stringifyMemory m @ rest = 123 # ?members"
    by (simp add: stringifyMemory_def)
  have "parseValue (Suc (Suc (Suc (Suc (Suc n))))) (123 # ?members)
        = map_option (\<lambda>(kvs, r'). (JObject kvs, r')) (parseMembers (Suc (Suc (Suc (Suc n)))) ?members)"
    by (simp add: t skipWS_Cons isJSONWhiteSpace_def del: parseMembers.simps)
  then show ?thesis
    by (simp only: s parseMembers_memory) (simp add: jsonOfMemory_def)
qed

lemma parseValue_memory_ge:
  "5 \<le> n \<Longrightarrow> parseValue n (stringifyMemory m @ rest) = Some (jsonOfMemory m, rest)"
proof -
  assume "5 \<le> n"
  then have "n = Suc (Suc (Suc (Suc (Suc (n - 5)))))"
    by arith
  then show ?thesis
    using parseValue_memory [of "n - 5" m rest] by simp
qed

lemma stringifyMemory_head: "\<exists>t. stringifyMemory m = 123 # t"
  by (simp add: stringifyMemory_def)

lemma joinComma_head:
  "\<exists>t. joinComma (map stringifyMemory (m # ms)) = 123 # t"
proof (cases ms)
  case Nil
  then show ?thesis using stringifyMemory_head [of m] by simp
next
  case (Cons m' ms')
  then show ?thesis using stringifyMemory_head [of m] by auto
qed

lemma parseElements_memories:
  "ms \<noteq> [] \<Longrightarrow> length ms + 5 \<le> f \<Longrightarrow>
   parseElements f (joinComma (map stringifyMemory ms) @ 93 # rest)
     = Some (map jsonOfMemory ms, rest)"
proof (induction ms arbitrary: f)
  case Nil
  then show ?case by simp
next
  case (Cons m ms)
  from Cons.prems obtain f' where f: "f = Suc f'" and f': "length ms + 5 \<le> f'"
    by (cases f) auto
  then have five: "5 \<le> f'" by simp
  show ?case
  proof (cases ms)
    case Nil
    have "parseElements (Suc f') (stringifyMemory m @ 93 # rest) = Some ([jsonOfMemory m], rest)"
      by (simp add: parseValue_memory_ge [OF five] skipWS_Cons isJSONWhiteSpace_def
          del: parseValue.simps)
    with Nil show ?thesis by (simp add: f)
  next
    case (Cons m' ms')
    define body where "body = joinComma (map stringifyMemory (m' # ms'))"
    obtain t where t: "body = 123 # t"
      using joinComma_head [of m' ms'] by (auto simp: body_def)
    have ih: "parseElements f' (body @ 93 # rest) = Some (map jsonOfMemory (m' # ms'), rest)"
      unfolding body_def using Cons.IH [of f'] f' Cons by simp
    have "parseElements (Suc f') (stringifyMemory m @ 44 # body @ 93 # rest)
          = (case parseValue f' (stringifyMemory m @ 44 # body @ 93 # rest) of
               None \<Rightarrow> None
             | Some (v, r) \<Rightarrow>
                 (case skipWS r of
                    [] \<Rightarrow> None
                  | d # r' \<Rightarrow>
                      if d = 93 then Some ([v], r')
                      else if d = 44 then
                        map_option (\<lambda>(vs, r''). (v # vs, r'')) (parseElements f' (skipWS r'))
                      else None))"
      by (rule parseElements.simps(2))
    also have "\<dots> = map_option (\<lambda>(vs, r''). (jsonOfMemory m # vs, r''))
                        (parseElements f' (body @ 93 # rest))"
      by (simp add: parseValue_memory_ge [OF five] skipWS_Cons isJSONWhiteSpace_def t
          del: parseValue.simps parseElements.simps)
    also have "\<dots> = Some (map jsonOfMemory (m # m' # ms'), rest)"
      by (simp only: ih) simp
    finally have "parseElements (Suc f') (stringifyMemory m @ 44 # body @ 93 # rest)
                  = Some (map jsonOfMemory (m # m' # ms'), rest)" .
    then show ?thesis
      by (simp add: f Cons body_def del: parseElements.simps)
  qed
qed

lemma length_stringifyMemory: "6 \<le> length (stringifyMemory m)"
  by (simp add: stringifyMemory_def quoteJSONString_def)

lemma length_joinComma: "6 * length ms \<le> length (joinComma (map stringifyMemory ms))"
proof (induction ms rule: induct_list012)
  case 1
  show ?case by simp
next
  case (2 m)
  show ?case using length_stringifyMemory [of m] by simp
next
  case (3 m m' ms)
  then show ?case using length_stringifyMemory [of m] by simp
qed

lemma JSON_parse_stringify:
  "JSON_parse (JSON_stringify ms) = Some (JArray (map jsonOfMemory ms))"
proof (cases ms)
  case Nil
  then show ?thesis
    by (simp add: JSON_parse_def JSON_stringify_def skipWS_def isJSONWhiteSpace_def)
next
  case (Cons m ms')
  let ?body = "joinComma (map stringifyMemory ms)"
  obtain t where t: "?body = 123 # t"
    using joinComma_head [of m ms'] Cons by auto
  have "length ms + 5 \<le> length (JSON_stringify ms)"
    using length_joinComma [of ms] Cons by (simp add: JSON_stringify_def)
  then have el: "parseElements (length (JSON_stringify ms)) (?body @ 93 # [])
                 = Some (map jsonOfMemory ms, [])"
    using Cons by (intro parseElements_memories) simp_all
  have "parseValue (Suc (length (JSON_stringify ms))) (91 # ?body @ [93])
        = map_option (\<lambda>(vs, r'). (JArray vs, r'))
            (parseElements (length (JSON_stringify ms)) (?body @ [93]))"
    by (simp add: t skipWS_Cons isJSONWhiteSpace_def del: parseElements.simps)
  with el have "parseValue (Suc (length (JSON_stringify ms))) (91 # ?body @ [93])
        = Some (JArray (map jsonOfMemory ms), [])"
    by simp
  then show ?thesis
    by (simp add: JSON_parse_def JSON_stringify_def skipWS_Cons isJSONWhiteSpace_def
        skipWS_def del: parseValue.simps)
qed

lemma asMemory_jsonOfMemory:
  "asMemory (jsonOfMemory m) = Some m"
  by (simp add: asMemory_def jsonOfMemory_def)

lemma those_asMemory:
  "those (map (asMemory \<circ> jsonOfMemory) ms) = Some ms"
  by (induction ms) (simp_all add: asMemory_jsonOfMemory)

lemma asMemories_JSON:
  "asMemories (JArray (map jsonOfMemory ms)) = Some ms"
  by (simp add: those_asMemory)

lemma JSON_stringify_not_Nil: "JSON_stringify ms \<noteq> []"
  by (simp add: JSON_stringify_def)

subsection \<open>Saving, loading and mounting\<close>

lemma getItem_setItem: "setItem st k v = Inr st' \<Longrightarrow> getItem st' k = Inr (Some v)"
  by (auto simp: setItem_def getItem_def update_conv' split: if_splits)

lemma saveEffect_cases:
  "snd (saveEffect w) = [] \<and> setItem (localStorage w) storageKey (JSON_stringify (memories w))
      = Inr (localStorage (fst (saveEffect w)))
   \<or> (\<exists>err. snd (saveEffect w)
         = [ConsoleError (js ''Failed to save memories from local storage'') (Exn err)])"
  by (simp add: saveEffect_def split: sum.splits)

lemma loadEffect_stored:
  assumes "getItem st storageKey = Inr (Some (JSON_stringify ms))"
  shows "loadEffect st = Normal [SetMemories ms]"
  using assms
  by (simp add: loadEffect_def JSON_stringify_not_Nil JSON_parse_stringify asMemories_JSON
      del: asMemories.simps)

lemma loadEffect_after_saveEffect:
  assumes "\<not> list_ex isConsoleError (snd (saveEffect w))"
  shows "loadEffect (localStorage (fst (saveEffect w))) = Normal [SetMemories (memories w)]"
proof -
  from assms saveEffect_cases [of w]
  have "setItem (localStorage w) storageKey (JSON_stringify (memories w))
          = Inr (localStorage (fst (saveEffect w)))"
    by auto
  then have "getItem (localStorage (fst (saveEffect w))) storageKey
               = Inr (Some (JSON_stringify (memories w)))"
    by (rule getItem_setItem)
  then show ?thesis by (rule loadEffect_stored)
qed

lemma saveEffect_failed:
  assumes "list_ex isConsoleError (snd (saveEffect w))"
  shows "fst (saveEffect w) = w
         \<and> (\<exists>err. snd (saveEffect w)
               = [ConsoleError (js ''Failed to save memories from local storage'') (Exn err)])"
  using assms by (simp add: saveEffect_def split: sum.splits)

lemma localStorage_perform: "localStorage (perform w a) = localStorage w"
  by (cases a) simp_all

lemma localStorage_foldl_perform: "localStorage (foldl perform w calls) = localStorage w"
  by (induction calls arbitrary: w) (simp_all add: localStorage_perform)

lemma step_add_or_delete:
  assumes "ev = Submit now stamp \<and> \<not> list_all isWhiteSpace (newMemory w) \<or> ev = DeleteClick i"
  shows "step w ev = (fst (saveEffect (foldl perform w (handle w ev))),
                      handle w ev @ snd (saveEffect (foldl perform w (handle w ev))))
         \<and> \<not> list_ex isConsoleError (handle w ev)"
  using assms
  by (auto simp: step_def dispatch_def rerender_def handleAddMemory_def handleDeleteMemory_def
      trim_Nil_iff split_beta)

lemma step_saves:
  assumes "list_ex isSetMemories (handle w ev)"
  shows "\<exists>w2 reset. step w ev
                = (fst (saveEffect w2), handle w ev @ reset @ snd (saveEffect w2))
              \<and> memories w2 = memories (fst (step w ev))
              \<and> \<not> list_ex isConsoleError reset"
proof -
  define w1 where "w1 = foldl perform w (handle w ev)"
  define reset where "reset = (if isListening w1 \<noteq> isListening w \<and> recognition w1 \<noteq> None
                                   \<and> \<not> isListening w1
                                then [SetAudioLevel 0] else [])"
  define w2 where "w2 = foldl perform w1 reset"
  have "rerender w (handle w ev) w1 = (fst (saveEffect w2), reset @ snd (saveEffect w2))"
    unfolding rerender_def w2_def reset_def Let_def using assms by (simp add: split_beta)
  then have s: "step w ev = (fst (saveEffect w2), handle w ev @ reset @ snd (saveEffect w2))"
    by (simp add: step_def dispatch_def w1_def)
  then have "memories (fst (step w ev)) = memories w2"
    by (simp add: memories_saveEffect)
  moreover have "\<not> list_ex isConsoleError reset"
    by (simp add: reset_def)
  ultimately show ?thesis using s by auto
qed

lemma no_alert_saveEffect: "\<not> list_ex isAlert (snd (saveEffect w))"
  by (simp add: saveEffect_def split: sum.splits)

lemma memories_perform: "\<not> isSetMemories a \<Longrightarrow> memories (perform w a) = memories w"
  by (cases a) simp_all

lemma memories_foldl_perform:
  "\<not> list_ex isSetMemories calls \<Longrightarrow> memories (foldl perform w calls) = memories w"
  by (induction calls arbitrary: w) (simp_all add: memories_perform)

lemma memories_perform_cong:
  assumes "memories w = memories w'"
  shows "memories (perform w a) = memories (perform w' a)"
  by (cases a) (simp_all add: assms)

lemma memories_foldl_perform_cong:
  "memories w = memories w' \<Longrightarrow>
   memories (foldl perform w calls) = memories (foldl perform w' calls)"
proof (induction calls arbitrary: w w')
  case Nil
  then show ?case by simp
next
  case (Cons a calls)
  from Cons.prems have "memories (perform w a) = memories (perform w' a)"
    by (rule memories_perform_cong)
  then have "memories (foldl perform (perform w a) calls)
             = memories (foldl perform (perform w' a) calls)"
    by (rule Cons.IH)
  then show ?case by simp
qed

lemma mount_Normal:
  assumes "env_synthesis e" and "loadEffect (env_storage e) = Normal loaded"
  shows "\<exists>w out. mount e = Normal (w, out)
           \<and> memories w = memories (foldl perform (initialWorld e) loaded)
           \<and> (list_ex isAlert out \<longleftrightarrow> list_ex isAlert loaded)"
proof -
  define voiceCalls where "voiceCalls = loadVoices (env_voices e)
      @ (if recognition (initialWorld e) = None then [] else [SetAudioLevel 0])"
  define calls where "calls = voiceCalls @ loaded"
  define w1 where "w1 = fst (saveEffect (initialWorld e))"
  define out1 where "out1 = snd (saveEffect (initialWorld e))"
  define w2 where "w2 = fst (rerender w1 calls (foldl perform w1 calls))"
  define out2 where "out2 = snd (rerender w1 calls (foldl perform w1 calls))"
  have m: "mount e = Normal (w2, calls @ out1 @ out2)"
    using assms
    by (simp add: mount_def calls_def voiceCalls_def w1_def out1_def w2_def out2_def Let_def
        split_beta)
  have pre: "\<not> list_ex isSetMemories voiceCalls" and pre': "\<not> list_ex isAlert voiceCalls"
    by (simp_all add: voiceCalls_def loadVoices_def)
  have "memories (foldl perform w1 voiceCalls) = memories (initialWorld e)"
    using pre by (simp add: memories_foldl_perform w1_def memories_saveEffect)
  then have "memories (foldl perform (foldl perform w1 voiceCalls) loaded)
             = memories (foldl perform (initialWorld e) loaded)"
    by (rule memories_foldl_perform_cong)
  then have mem: "memories w2 = memories (foldl perform (initialWorld e) loaded)"
    by (simp add: w2_def memories_rerender calls_def)
  have a1: "\<not> list_ex isAlert out1"
    by (simp add: out1_def no_alert_saveEffect)
  have a2: "\<not> list_ex isAlert out2"
    by (simp add: out2_def rerender_def Let_def split_beta no_alert_saveEffect)
  have "list_ex isAlert (calls @ out1 @ out2) \<longleftrightarrow> list_ex isAlert loaded"
    using pre' a1 a2 by (simp add: calls_def)
  with m mem show ?thesis by blast
qed

lemma JSON_parse_Nil: "JSON_parse [] = None"
  by (simp add: JSON_parse_def skipWS_def)

subsection \<open>What the load effect tolerates\<close>

text \<open>
  When the stored value is absent (or is the empty string, which the code treats
  alike) the load effect makes no call; when \<open>JSON.parse\<close> throws on it, or reading
  the storage throws, its only call is \<open>console.error\<close>. In each of these cases a
  mount with speech synthesis ends normally with the empty collection and without
  any \<open>alert\<close>.
\<close>

lemma load_absent_or_unparsable:
  assumes synth: "env_synthesis e"
  shows "(getItem (env_storage e) storageKey = Inr None
            \<or> getItem (env_storage e) storageKey = Inr (Some [])
          \<longrightarrow> loadEffect (env_storage e) = Normal [])
       \<and> (\<forall>s. s \<noteq> [] \<and> getItem (env_storage e) storageKey = Inr (Some s)
                \<and> JSON_parse s = None
             \<longrightarrow> loadEffect (env_storage e)
                  = Normal [ConsoleError (js ''Failed to load memories from local storage'')
                              (Exn SyntaxError)])
       \<and> (\<forall>err. getItem (env_storage e) storageKey = Inl err
             \<longrightarrow> loadEffect (env_storage e)
                  = Normal [ConsoleError (js ''Failed to load memories from local storage'')
                              (Exn err)])
       \<and> (getItem (env_storage e) storageKey = Inr None
            \<or> (\<exists>s. getItem (env_storage e) storageKey = Inr (Some s) \<and> JSON_parse s = None)
            \<or> (\<exists>err. getItem (env_storage e) storageKey = Inl err)
          \<longrightarrow> (\<exists>w out. mount e = Normal (w, out) \<and> memories w = []
                          \<and> \<not> list_ex isAlert out))"
proof -
  have absent: "getItem (env_storage e) storageKey = Inr None
            \<or> getItem (env_storage e) storageKey = Inr (Some [])
          \<longrightarrow> loadEffect (env_storage e) = Normal []"
    by (auto simp: loadEffect_def)
  have corrupt: "\<forall>s. s \<noteq> [] \<and> getItem (env_storage e) storageKey = Inr (Some s)
                \<and> JSON_parse s = None
             \<longrightarrow> loadEffect (env_storage e)
                  = Normal [ConsoleError (js ''Failed to load memories from local storage'')
                              (Exn SyntaxError)]"
    by (auto simp: loadEffect_def)
  have throws: "\<forall>err. getItem (env_storage e) storageKey = Inl err
             \<longrightarrow> loadEffect (env_storage e)
                  = Normal [ConsoleError (js ''Failed to load memories from local storage'')
                              (Exn err)]"
    by (auto simp: loadEffect_def)
  have mounted: "getItem (env_storage e) storageKey = Inr None
            \<or> (\<exists>s. getItem (env_storage e) storageKey = Inr (Some s) \<and> JSON_parse s = None)
            \<or> (\<exists>err. getItem (env_storage e) storageKey = Inl err)
          \<longrightarrow> (\<exists>w out. mount e = Normal (w, out) \<and> memories w = []
                          \<and> \<not> list_ex isAlert out)"
  proof
    assume "getItem (env_storage e) storageKey = Inr None
            \<or> (\<exists>s. getItem (env_storage e) storageKey = Inr (Some s) \<and> JSON_parse s = None)
            \<or> (\<exists>err. getItem (env_storage e) storageKey = Inl err)"
    then consider
        (none) "getItem (env_storage e) storageKey = Inr None"
      | (bad) s where "getItem (env_storage e) storageKey = Inr (Some s)" "JSON_parse s = None"
      | (thrown) err where "getItem (env_storage e) storageKey = Inl err"
      by blast
    then have "\<exists>loaded. loadEffect (env_storage e) = Normal loaded
                 \<and> \<not> list_ex isSetMemories loaded \<and> \<not> list_ex isAlert loaded"
    proof cases
      case none
      with absent show ?thesis by simp
    next
      case bad
      show ?thesis
      proof (cases "s = []")
        case True
        with bad absent show ?thesis by simp
      next
        case False
        with bad corrupt show ?thesis by simp
      qed
    next
      case thrown
      with throws show ?thesis by simp
    qed
    then obtain loaded where l: "loadEffect (env_storage e) = Normal loaded"
      and quiet: "\<not> list_ex isSetMemories loaded" "\<not> list_ex isAlert loaded"
      by blast
    from mount_Normal [OF synth l] obtain w out where
      m: "mount e = Normal (w, out)"
      and mem: "memories w = memories (foldl perform (initialWorld e) loaded)"
      and al: "list_ex isAlert out \<longleftrightarrow> list_ex isAlert loaded"
      by blast
    from mem quiet(1) have "memories w = []"
      by (simp add: memories_foldl_perform initialWorld_def)
    with m al quiet(2) show "\<exists>w out. mount e = Normal (w, out) \<and> memories w = []
                          \<and> \<not> list_ex isAlert out"
      by blast
  qed
  from absent corrupt throws mounted show ?thesis by blast
qed

lemma load_corruptEnv:
  "env_synthesis corruptEnv
   \<and> getItem (env_storage corruptEnv) storageKey = Inr (Some (js ''{oops''))
   \<and> JSON_parse (js ''{oops'') = None
   \<and> loadEffect (env_storage corruptEnv)
       = Normal [ConsoleError (js ''Failed to load memories from local storage'')
                   (Exn SyntaxError)]"
proof -
  have s: "env_synthesis corruptEnv"
    by (simp add: corruptEnv_def)
  have g: "getItem (env_storage corruptEnv) storageKey = Inr (Some (js ''{oops''))"
    by (simp add: corruptEnv_def getItem_def storageKey_def)
  have p: "JSON_parse (js ''{oops'') = None"
    by (simp add: JSON_parse_def js_def skipWS_def isJSONWhiteSpace_def)
  have n: "js ''{oops'' \<noteq> []"
    by (simp add: js_def)
  from load_absent_or_unparsable [OF s, THEN conjunct2, THEN conjunct1, rule_format,
      of "js ''{oops''"] n g p
  have "loadEffect (env_storage corruptEnv)
       = Normal [ConsoleError (js ''Failed to load memories from local storage'')
                   (Exn SyntaxError)]"
    by blast
  with s g p show ?thesis by blast
qed

section \<open>The claims\<close>

text \<open>
  C1, as amended. For every sequence of add operations with non-blank drafts, run from
  any world, the collection is the new memories in reverse order of insertion (newest
  first) in front of the old collection. The ids of the result are the clock readings
  of the adds followed by the old ids, so they are unique exactly when the clock
  readings are pairwise distinct, the old ids are, and no reading equals an old id.
\<close>

theorem C1_adds_prepend:
  "list_all nonBlank ops \<Longrightarrow>
   memories (run w (addEvents ops)) = rev (map added ops) @ memories w
   \<and> (distinct (map m_id (memories (run w (addEvents ops))))
      \<longleftrightarrow> distinct (map clock ops @ map m_id (memories w)))"
proof -
  assume nb: "list_all nonBlank ops"
  have mem: "memories (run w (addEvents ops)) = rev (map added ops) @ memories w"
    using nb by (rule memories_run_addEvents)
  have "map m_id (rev (map added ops)) = rev (map clock ops)"
    by (simp add: rev_map m_id_added)
  then have "map m_id (memories (run w (addEvents ops)))
             = rev (map clock ops) @ map m_id (memories w)"
    by (simp add: mem)
  then have "distinct (map m_id (memories (run w (addEvents ops))))
             \<longleftrightarrow> distinct (map clock ops @ map m_id (memories w))"
    by simp
  with mem show ?thesis by blast
qed

theorem C1_adds_prepend_witness:
  "list_all nonBlank laterClockAdds
   \<and> memories (run exampleWorld (addEvents laterClockAdds))
       = [\<lparr>m_id = 1700000000001, m_text = js ''b'', m_timestamp = js ''1/1/2024''\<rparr>,
          \<lparr>m_id = 1700000000000, m_text = js ''a'', m_timestamp = js ''1/1/2024''\<rparr>]
   \<and> distinct (map m_id (memories (run exampleWorld (addEvents laterClockAdds))))"
  using C1_adds_prepend [of laterClockAdds exampleWorld]
  by (simp add: laterClockAdds_def isWhiteSpace_def js_def exampleWorld_def initialWorld_def)

text \<open>
  C1 as stated fails: two adds that read the same value of \<open>Date.now()\<close> give two
  memories with the same id.
\<close>

theorem C1_counterexample:
  "list_all nonBlank sameClockAdds
   \<and> \<not> distinct (map m_id (memories (run exampleWorld (addEvents sameClockAdds))))"
  using memories_run_addEvents [of sameClockAdds exampleWorld]
  by (simp add: sameClockAdds_def isWhiteSpace_def js_def)

text \<open>
  C2. In every state, submitting the add form while the draft is empty or consists
  only of white space changes nothing (neither the collection nor any other part of
  the state, nor the storage) and the only calls made are \<open>preventDefault\<close> and the
  \<open>alert\<close> with the validation notice.
\<close>

theorem C2_blank_submit_rejected:
  "list_all isWhiteSpace (newMemory w) \<Longrightarrow>
   step w (Submit now stamp) = (w, [PreventDefault, Alert (js ''Please enter a memory!'')])"
  by (rule step_Submit_blank)

theorem C2_blank_submit_rejected_witness:
  "list_all isWhiteSpace (newMemory (exampleWorld\<lparr>newMemory := [32, 9, 160]\<rparr>))
   \<and> step (exampleWorld\<lparr>newMemory := [32, 9, 160]\<rparr>) (Submit 1700000000000 (js ''1/2/2024''))
       = (exampleWorld\<lparr>newMemory := [32, 9, 160]\<rparr>,
          [PreventDefault, Alert (js ''Please enter a memory!'')])"
  using C2_blank_submit_rejected
    [of "exampleWorld\<lparr>newMemory := [32, 9, 160]\<rparr>" 1700000000000 "js ''1/2/2024''"]
  by (simp add: isWhiteSpace_def)

text \<open>
  C3, as amended. For every collection and every memory in it whose id no other
  record of the collection carries, deleting by that id removes exactly that record:
  what stood before it and what stood after it remain, in the same order.
\<close>

theorem C3_delete_present_id:
  "memories w = pre @ m # post \<Longrightarrow> list_all (\<lambda>x. m_id x \<noteq> m_id m) (pre @ post) \<Longrightarrow>
   memories (fst (step w (DeleteClick (m_id m)))) = pre @ post"
  using filter_single_id [of m pre post] by (simp add: memories_step_Delete)

theorem C3_delete_present_id_witness:
  "memories mixedWorld
     = [] @ \<lparr>m_id = 1700000000001, m_text = js ''c'', m_timestamp = js ''1/1/2024''\<rparr>
         # [\<lparr>m_id = 1700000000000, m_text = js ''b'', m_timestamp = js ''1/1/2024''\<rparr>,
            \<lparr>m_id = 1700000000000, m_text = js ''a'', m_timestamp = js ''1/1/2024''\<rparr>]
   \<and> memories (fst (step mixedWorld (DeleteClick 1700000000001)))
       = [\<lparr>m_id = 1700000000000, m_text = js ''b'', m_timestamp = js ''1/1/2024''\<rparr>,
          \<lparr>m_id = 1700000000000, m_text = js ''a'', m_timestamp = js ''1/1/2024''\<rparr>]"
  using C3_delete_present_id
    [of mixedWorld "[]"
        "\<lparr>m_id = 1700000000001, m_text = js ''c'', m_timestamp = js ''1/1/2024''\<rparr>"
        "[\<lparr>m_id = 1700000000000, m_text = js ''b'', m_timestamp = js ''1/1/2024''\<rparr>,
          \<lparr>m_id = 1700000000000, m_text = js ''a'', m_timestamp = js ''1/1/2024''\<rparr>]"]
  by (simp add: mixedWorld_def)

text \<open>
  C3 as stated fails on a collection in which two memories have the same id (the
  collection of the two adds above): deleting by that id removes both.
\<close>

theorem C3_counterexample:
  "map m_id (memories (run exampleWorld (addEvents sameClockAdds)))
     = [1700000000000, 1700000000000]
   \<and> memories (fst (step (run exampleWorld (addEvents sameClockAdds))
                  (DeleteClick 1700000000000))) = []"
  using memories_run_addEvents [of sameClockAdds exampleWorld]
  by (simp add: memories_step_Delete sameClockAdds_def isWhiteSpace_def js_def
      exampleWorld_def initialWorld_def)

text \<open>
  C4, as amended. After every add (a submit with a non-blank draft) and every
  delete: when the write to the storage does not throw, the load effect run on the
  storage sets exactly the collection that was in memory at the write, record by
  record with the same id, text and timestamp, and a mount on that storage ends with
  this collection; when \<open>setItem\<close> throws, the only call after those of the handler is
  the \<open>console.error\<close> with the error, and the storage is as it was before the
  operation.
\<close>

theorem C4_saved_collection_reloads:
  assumes op: "ev = Submit now stamp \<and> \<not> list_all isWhiteSpace (newMemory w)
               \<or> ev = DeleteClick i"
  shows "(\<not> list_ex isConsoleError (snd (step w ev)) \<longrightarrow>
            loadEffect (localStorage (fst (step w ev)))
              = Normal [SetMemories (memories (fst (step w ev)))]
            \<and> (\<forall>e::env. env_synthesis e \<and> env_storage e = localStorage (fst (step w ev))
                   \<longrightarrow> (\<exists>w' out. mount e = Normal (w', out)
                                   \<and> memories w' = memories (fst (step w ev)))))
         \<and> (list_ex isConsoleError (snd (step w ev)) \<longrightarrow>
              localStorage (fst (step w ev)) = localStorage w
              \<and> (\<exists>err. snd (step w ev)
                    = handle w ev
                      @ [ConsoleError (js ''Failed to save memories from local storage'')
                           (Exn err)]))"
proof -
  define w1 where "w1 = foldl perform w (handle w ev)"
  have s: "step w ev = (fst (saveEffect w1), handle w ev @ snd (saveEffect w1))"
    and quiet: "\<not> list_ex isConsoleError (handle w ev)"
    using step_add_or_delete [OF op] by (simp_all add: w1_def)
  have m: "memories (fst (step w ev)) = memories w1"
    by (simp add: s memories_saveEffect)
  have written: "\<not> list_ex isConsoleError (snd (step w ev)) \<longrightarrow>
            loadEffect (localStorage (fst (step w ev)))
              = Normal [SetMemories (memories (fst (step w ev)))]
            \<and> (\<forall>e::env. env_synthesis e \<and> env_storage e = localStorage (fst (step w ev))
                   \<longrightarrow> (\<exists>w' out. mount e = Normal (w', out)
                                   \<and> memories w' = memories (fst (step w ev))))"
  proof
    assume "\<not> list_ex isConsoleError (snd (step w ev))"
    then have "\<not> list_ex isConsoleError (snd (saveEffect w1))"
      by (simp add: s)
    then have "loadEffect (localStorage (fst (saveEffect w1))) = Normal [SetMemories (memories w1)]"
      by (rule loadEffect_after_saveEffect)
    then have load: "loadEffect (localStorage (fst (step w ev)))
                       = Normal [SetMemories (memories (fst (step w ev)))]"
      by (simp add: s memories_saveEffect)
    have "\<forall>e::env. env_synthesis e \<and> env_storage e = localStorage (fst (step w ev))
            \<longrightarrow> (\<exists>w' out. mount e = Normal (w', out)
                            \<and> memories w' = memories (fst (step w ev)))"
    proof (intro allI impI)
      fix e :: env
      assume e: "env_synthesis e \<and> env_storage e = localStorage (fst (step w ev))"
      with load have "loadEffect (env_storage e)
                      = Normal [SetMemories (memories (fst (step w ev)))]"
        by simp
      with e mount_Normal [of e "[SetMemories (memories (fst (step w ev)))]"]
      show "\<exists>w' out. mount e = Normal (w', out) \<and> memories w' = memories (fst (step w ev))"
        by auto
    qed
    with load show "loadEffect (localStorage (fst (step w ev)))
              = Normal [SetMemories (memories (fst (step w ev)))]
            \<and> (\<forall>e::env. env_synthesis e \<and> env_storage e = localStorage (fst (step w ev))
                   \<longrightarrow> (\<exists>w' out. mount e = Normal (w', out)
                                   \<and> memories w' = memories (fst (step w ev))))"
      by blast
  qed
  have thrown: "list_ex isConsoleError (snd (step w ev)) \<longrightarrow>
              localStorage (fst (step w ev)) = localStorage w
              \<and> (\<exists>err. snd (step w ev)
                    = handle w ev
                      @ [ConsoleError (js ''Failed to save memories from local storage'')
                           (Exn err)])"
  proof
    assume "list_ex isConsoleError (snd (step w ev))"
    with quiet have "list_ex isConsoleError (snd (saveEffect w1))"
      by (simp add: s)
    then have f: "fst (saveEffect w1) = w1"
      and "\<exists>err. snd (saveEffect w1)
               = [ConsoleError (js ''Failed to save memories from local storage'') (Exn err)]"
      using saveEffect_failed by blast+
    then obtain err where "snd (saveEffect w1)
               = [ConsoleError (js ''Failed to save memories from local storage'') (Exn err)]"
      by blast
    then have "snd (step w ev)
                 = handle w ev
                   @ [ConsoleError (js ''Failed to save memories from local storage'') (Exn err)]"
      by (simp add: s)
    moreover have "localStorage (fst (step w ev)) = localStorage w1"
      by (simp add: s f)
    then have "localStorage (fst (step w ev)) = localStorage w"
      by (simp add: w1_def localStorage_foldl_perform)
    ultimately show "localStorage (fst (step w ev)) = localStorage w
              \<and> (\<exists>err. snd (step w ev)
                    = handle w ev
                      @ [ConsoleError (js ''Failed to save memories from local storage'')
                           (Exn err)])"
      by blast
  qed
  from written thrown show ?thesis by blast
qed

theorem C4_saved_collection_reloads_witness:
  "\<not> list_all isWhiteSpace (newMemory (exampleWorld\<lparr>newMemory := js ''a''\<rparr>))
   \<and> \<not> list_ex isConsoleError
        (snd (step (exampleWorld\<lparr>newMemory := js ''a''\<rparr>) (Submit 1700000000000 (js ''1/1/2024''))))
   \<and> loadEffect (localStorage
        (fst (step (exampleWorld\<lparr>newMemory := js ''a''\<rparr>) (Submit 1700000000000 (js ''1/1/2024'')))))
       = Normal [SetMemories
                  [\<lparr>m_id = 1700000000000, m_text = js ''a'', m_timestamp = js ''1/1/2024''\<rparr>]]
   \<and> list_ex isConsoleError
        (snd (step fullStorageWorld (Submit 1700000000000 (js ''1/1/2024''))))
   \<and> localStorage (fst (step fullStorageWorld (Submit 1700000000000 (js ''1/1/2024''))))
       = localStorage fullStorageWorld"
proof -
  let ?w = "exampleWorld\<lparr>newMemory := js ''a''\<rparr>"
  let ?ev = "Submit 1700000000000 (js ''1/1/2024'')"
  have nb: "\<not> list_all isWhiteSpace (newMemory ?w)"
    by (simp add: js_def isWhiteSpace_def)
  have mem: "memories (fst (step ?w ?ev))
             = [\<lparr>m_id = 1700000000000, m_text = js ''a'', m_timestamp = js ''1/1/2024''\<rparr>]"
    using nb by (simp add: memories_step_Submit exampleWorld_def initialWorld_def)
  have len: "length (JSON_stringify
               [\<lparr>m_id = 1700000000000, m_text = js ''a'', m_timestamp = js ''1/1/2024''\<rparr>]) = 56"
    by (simp add: JSON_stringify_def stringifyMemory_def quoteJSONString_def numberToString_def
        digits.simps digitChar_def escapeUnit_def isHighSurrogate_def isLowSurrogate_def js_def)
  have key: "length storageKey = 14"
    by (simp add: storageKey_def js_def)
  have ok: "\<not> list_ex isConsoleError (snd (step ?w ?ev))"
    using nb
    by (simp add: step_def dispatch_def rerender_def handleAddMemory_def trim_Nil_iff
        saveEffect_def setItem_def used_def exampleWorld_def initialWorld_def exampleEnv_def
        key len)
  have op: "?ev = Submit 1700000000000 (js ''1/1/2024'') \<and> \<not> list_all isWhiteSpace (newMemory ?w)
            \<or> ?ev = DeleteClick 0"
    using nb by simp
  from C4_saved_collection_reloads [OF op, THEN conjunct1, rule_format, OF ok, THEN conjunct1]
  have load: "loadEffect (localStorage (fst (step ?w ?ev)))
          = Normal [SetMemories (memories (fst (step ?w ?ev)))]" .
  have nbf: "\<not> list_all isWhiteSpace (newMemory fullStorageWorld)"
    by (simp add: fullStorageWorld_def js_def isWhiteSpace_def)
  have failed: "list_ex isConsoleError (snd (step fullStorageWorld ?ev))"
    using nbf
    by (simp add: step_def dispatch_def rerender_def handleAddMemory_def trim_Nil_iff
        saveEffect_def setItem_def used_def key fullStorageWorld_def exampleWorld_def
        initialWorld_def exampleEnv_def)
  have opf: "?ev = Submit 1700000000000 (js ''1/1/2024'')
               \<and> \<not> list_all isWhiteSpace (newMemory fullStorageWorld)
             \<or> ?ev = DeleteClick 0"
    using nbf by simp
  from C4_saved_collection_reloads [OF opf, THEN conjunct2, rule_format, OF failed,
      THEN conjunct1]
  have kept: "localStorage (fst (step fullStorageWorld ?ev)) = localStorage fullStorageWorld" .
  from nb ok load mem failed kept show ?thesis by simp
qed

text \<open>
  C4 as stated fails when the write throws: with a storage that accepts no data the
  add is kept in memory, the failure of \<open>setItem\<close> is logged, and a load of the storage
  finds nothing.
\<close>

theorem C4_counterexample:
  "memories (fst (step fullStorageWorld (Submit 1700000000000 (js ''1/1/2024''))))
     = [\<lparr>m_id = 1700000000000, m_text = js ''a'', m_timestamp = js ''1/1/2024''\<rparr>]
   \<and> snd (step fullStorageWorld (Submit 1700000000000 (js ''1/1/2024'')))
     = [PreventDefault,
        SetMemories [\<lparr>m_id = 1700000000000, m_text = js ''a'', m_timestamp = js ''1/1/2024''\<rparr>],
        SetNewMemory [],
        ConsoleError (js ''Failed to save memories from local storage'') (Exn QuotaExceededError)]
   \<and> loadEffect (localStorage
        (fst (step fullStorageWorld (Submit 1700000000000 (js ''1/1/2024''))))) = Normal []"
proof -
  have nb: "trim (newMemory fullStorageWorld) \<noteq> []"
    by (simp add: trim_Nil_iff fullStorageWorld_def js_def isWhiteSpace_def)
  have key: "length storageKey = 14"
    by (simp add: storageKey_def js_def)
  have "step fullStorageWorld (Submit 1700000000000 (js ''1/1/2024''))
        = (fullStorageWorld
             \<lparr>memories := [\<lparr>m_id = 1700000000000, m_text = js ''a'',
                            m_timestamp = js ''1/1/2024''\<rparr>],
              newMemory := []\<rparr>,
           [PreventDefault,
            SetMemories [\<lparr>m_id = 1700000000000, m_text = js ''a'',
                          m_timestamp = js ''1/1/2024''\<rparr>],
            SetNewMemory [],
            ConsoleError (js ''Failed to save memories from local storage'')
              (Exn QuotaExceededError)])"
    using nb
    by (simp add: step_def dispatch_def rerender_def handleAddMemory_def saveEffect_def
        setItem_def used_def key fullStorageWorld_def exampleWorld_def initialWorld_def
        exampleEnv_def)
  then show ?thesis
    by (simp add: loadEffect_def getItem_def fullStorageWorld_def)
qed

text \<open>
  C5, as amended. For every collection and every filter string, the displayed list
  is the collection restricted, in order, to the memories whose text, lower-cased by
  \<open>toLowerCase\<close>, contains the lower-cased filter as a contiguous substring.
  \<open>toLowerCase\<close> enters as a function that on ASCII strings is the ASCII lower-casing.
  The empty filter keeps every memory. When text and filter are ASCII, a memory is
  displayed exactly when some substring of its text equals the filter up to case. A
  memory with the text "Buy Milk" is displayed for the filters "milk", "MILK" and "",
  and is not displayed for "almond".
\<close>

theorem C5_filter_case_insensitive:
  assumes ascii: "\<forall>s. isASCII s \<longrightarrow> lower s = lowerASCII s"
  shows
    "filteredMemories lower w
       = filter (\<lambda>m. \<exists>pre post. lower (m_text m) = pre @ lower (searchTerm w) @ post)
           (memories w)
     \<and> (searchTerm w = [] \<longrightarrow> filteredMemories lower w = memories w)
     \<and> (\<forall>m \<in> set (memories w). isASCII (m_text m) \<and> isASCII (searchTerm w) \<longrightarrow>
          (m \<in> set (filteredMemories lower w)
           \<longleftrightarrow> (\<exists>a b c. m_text m = a @ b @ c \<and> lower b = lower (searchTerm w))))
     \<and> (\<forall>m \<in> set (memories w). m_text m = js ''Buy Milk'' \<longrightarrow>
          (searchTerm w = js ''milk'' \<or> searchTerm w = js ''MILK'' \<or> searchTerm w = []
             \<longrightarrow> m \<in> set (filteredMemories lower w))
          \<and> (searchTerm w = js ''almond'' \<longrightarrow> m \<notin> set (filteredMemories lower w)))"
proof -
  have general:
    "filteredMemories lower w
       = filter (\<lambda>m. \<exists>pre post. lower (m_text m) = pre @ lower (searchTerm w) @ post)
           (memories w)"
    by (simp add: filteredMemories_def includes_js_iff)
  have empty: "lower [] = []"
    using ascii [rule_format, of "[]"] by (simp add: isASCII_def lowerASCII_def)
  have all: "searchTerm w = [] \<longrightarrow> filteredMemories lower w = memories w"
    by (simp add: filteredMemories_def empty includes_js_Nil)
  have substring:
    "\<forall>m \<in> set (memories w). isASCII (m_text m) \<and> isASCII (searchTerm w) \<longrightarrow>
       (m \<in> set (filteredMemories lower w)
        \<longleftrightarrow> (\<exists>a b c. m_text m = a @ b @ c \<and> lower b = lower (searchTerm w)))"
  proof (intro ballI impI)
    fix m
    assume m: "m \<in> set (memories w)"
      and a: "isASCII (m_text m) \<and> isASCII (searchTerm w)"
    have part: "\<And>x y z. m_text m = x @ y @ z \<Longrightarrow> lower y = lowerASCII y"
    proof -
      fix x y z
      assume "m_text m = x @ y @ z"
      with a have "isASCII y" by (simp add: isASCII_def)
      with ascii show "lower y = lowerASCII y" by blast
    qed
    have "m \<in> set (filteredMemories lower w)
          \<longleftrightarrow> (\<exists>pre post. lowerASCII (m_text m) = pre @ lowerASCII (searchTerm w) @ post)"
      using m a ascii by (simp add: general)
    also have "\<dots> \<longleftrightarrow> (\<exists>x y z. m_text m = x @ y @ z \<and> lowerASCII y = lowerASCII (searchTerm w))"
      by (rule substring_lowerASCII)
    also have "\<dots> \<longleftrightarrow> (\<exists>x y z. m_text m = x @ y @ z \<and> lower y = lower (searchTerm w))"
      using part a ascii by metis
    finally show "m \<in> set (filteredMemories lower w)
        \<longleftrightarrow> (\<exists>a b c. m_text m = a @ b @ c \<and> lower b = lower (searchTerm w))" .
  qed
  have buy: "lower (js ''Buy Milk'') = js ''buy milk''"
    using ascii [rule_format, of "js ''Buy Milk''"] by (simp add: isASCII_def lowerASCII_def js_def)
  have milk: "lower (js ''milk'') = js ''milk''"
    using ascii [rule_format, of "js ''milk''"] by (simp add: isASCII_def lowerASCII_def js_def)
  have MILK: "lower (js ''MILK'') = js ''milk''"
    using ascii [rule_format, of "js ''MILK''"] by (simp add: isASCII_def lowerASCII_def js_def)
  have almond: "lower (js ''almond'') = js ''almond''"
    using ascii [rule_format, of "js ''almond''"] by (simp add: isASCII_def lowerASCII_def js_def)
  have yes: "includes_js (js ''buy milk'') (js ''milk'')"
    by (simp add: js_def)
  have no: "\<not> includes_js (js ''buy milk'') (js ''almond'')"
    by (simp add: js_def)
  have examples:
    "\<forall>m \<in> set (memories w). m_text m = js ''Buy Milk'' \<longrightarrow>
       (searchTerm w = js ''milk'' \<or> searchTerm w = js ''MILK'' \<or> searchTerm w = []
          \<longrightarrow> m \<in> set (filteredMemories lower w))
       \<and> (searchTerm w = js ''almond'' \<longrightarrow> m \<notin> set (filteredMemories lower w))"
    using yes no by (auto simp: filteredMemories_def buy milk MILK almond empty includes_js_Nil)
  from general all substring examples show ?thesis by blast
qed

theorem C5_filter_case_insensitive_witness:
  "isASCII (js ''Buy Milk'')
   \<and> filteredMemories lowerJS (exampleWorld\<lparr>memories := [buyMilk], searchTerm := js ''MILK''\<rparr>)
       = [buyMilk]
   \<and> filteredMemories lowerJS (exampleWorld\<lparr>memories := [buyMilk], searchTerm := js ''milk''\<rparr>)
       = [buyMilk]
   \<and> filteredMemories lowerJS (exampleWorld\<lparr>memories := [buyMilk], searchTerm := []\<rparr>)
       = [buyMilk]
   \<and> filteredMemories lowerJS (exampleWorld\<lparr>memories := [buyMilk], searchTerm := js ''almond''\<rparr>)
       = []"
proof -
  have a: "\<forall>s. isASCII s \<longrightarrow> lowerJS s = lowerASCII s"
    by (simp add: lowerJS_ASCII)
  have buy: "lowerJS (js ''Buy Milk'') = js ''buy milk''"
    by (simp add: lowerJS_ASCII isASCII_def lowerASCII_def js_def)
  have milk: "lowerJS (js ''milk'') = js ''milk''"
    by (simp add: lowerJS_ASCII isASCII_def lowerASCII_def js_def)
  have MILK: "lowerJS (js ''MILK'') = js ''milk''"
    by (simp add: lowerJS_ASCII isASCII_def lowerASCII_def js_def)
  have almond: "lowerJS (js ''almond'') = js ''almond''"
    by (simp add: lowerJS_ASCII isASCII_def lowerASCII_def js_def)
  have yes: "includes_js (js ''buy milk'') (js ''milk'')"
    by (simp add: js_def)
  have no: "\<not> includes_js (js ''buy milk'') (js ''almond'')"
    by (simp add: js_def)
  have "isASCII (js ''Buy Milk'')"
    by (simp add: isASCII_def js_def)
  moreover have "filteredMemories lowerJS
      (exampleWorld\<lparr>memories := [buyMilk], searchTerm := js ''MILK''\<rparr>) = [buyMilk]"
    using yes by (simp add: filteredMemories_def buyMilk_def buy MILK)
  moreover have "filteredMemories lowerJS
      (exampleWorld\<lparr>memories := [buyMilk], searchTerm := js ''milk''\<rparr>) = [buyMilk]"
    using yes by (simp add: filteredMemories_def buyMilk_def buy milk)
  moreover have "filteredMemories lowerJS
      (exampleWorld\<lparr>memories := [buyMilk], searchTerm := []\<rparr>) = [buyMilk]"
    using C5_filter_case_insensitive [OF a,
        of "exampleWorld\<lparr>memories := [buyMilk], searchTerm := []\<rparr>",
        THEN conjunct2, THEN conjunct1]
    by simp
  moreover have "filteredMemories lowerJS
      (exampleWorld\<lparr>memories := [buyMilk], searchTerm := js ''almond''\<rparr>) = []"
    using no by (simp add: filteredMemories_def buyMilk_def buy almond)
  ultimately show ?thesis by simp
qed

text \<open>
  C5 as stated fails outside ASCII. \<open>lowerJS\<close> is the ASCII lower-casing on ASCII
  strings, as the theorem above assumes. A memory whose text is the Greek capitals
  alpha and sigma contains the filter capital sigma literally, yet it is not
  displayed: in the text the sigma is final and becomes the final small sigma, in
  the filter it becomes the small sigma.
\<close>

theorem C5_counterexample:
  "m_text alphaSigma = [913] @ [931] @ []
   \<and> lowerJS (m_text alphaSigma) = [945, 962]
   \<and> lowerJS [931] = [963]
   \<and> filteredMemories lowerJS (exampleWorld\<lparr>memories := [alphaSigma], searchTerm := [931]\<rparr>)
       = []"
proof -
  have t: "lowerJS [913, 931] = [945, 962]"
    by (simp add: lowerJS_def lowerUnit_def isCased_def isCaseIgnorable_def followedByCased_def)
  have f: "lowerJS [931] = [963]"
    by (simp add: lowerJS_def)
  have "\<not> includes_js [945, 962] [963]"
    by simp
  with t f show ?thesis
    by (simp add: alphaSigma_def filteredMemories_def)
qed

text \<open>
  C6, at an input on which the code departs from it. The stored text \<open>null\<close> is
  JSON, so \<open>JSON.parse\<close> does not throw and nothing is caught or logged; the load effect
  passes the value to \<open>setMemories\<close> unchecked. The mount ends with a state that holds
  this value in place of a collection, and the filter of the next render throws.
\<close>

theorem C6_corrupt_value_is_fatal:
  "getItem (env_storage nullEnv) storageKey = Inr (Some (js ''null''))
   \<and> JSON_parse (js ''null'') = Some JNull
   \<and> mount nullEnv = Foreign JNull
   \<and> filterThrows JNull"
proof -
  have g: "getItem (env_storage nullEnv) storageKey = Inr (Some (js ''null''))"
    by (simp add: nullEnv_def getItem_def storageKey_def)
  have p: "JSON_parse (js ''null'') = Some JNull"
    by (simp add: JSON_parse_def js_def skipWS_def isJSONWhiteSpace_def)
  have n: "js ''null'' \<noteq> []"
    by (simp add: js_def)
  have "loadEffect (env_storage nullEnv) = Foreign JNull"
    using g p n by (simp add: loadEffect_def)
  moreover have "env_synthesis nullEnv"
    by (simp add: nullEnv_def)
  ultimately have "mount nullEnv = Foreign JNull"
    by (simp add: mount_def)
  with g p show ?thesis by simp
qed

text \<open>
  C7. In every world that the component can reach and in which no recognition
  instance exists, the listening flag is off, and the microphone button leaves the
  whole world (the flag included) as it is; its only call is the \<open>alert\<close>, so no call
  is made on a device.
\<close>

theorem C7_listen_without_recognition:
  "reachable w \<Longrightarrow> recognition w = None \<Longrightarrow>
   \<not> isListening w
   \<and> step w MicClick
       = (w, [Alert (js ''Sorry, your browser does not support voice recognition.'')])
   \<and> \<not> list_ex isDeviceCall (snd (step w MicClick))"
  by (simp add: reachable_idle step_MicClick_no_recognition)

theorem C7_listen_without_recognition_witness:
  "reachable noRecognitionWorld \<and> recognition noRecognitionWorld = None
   \<and> \<not> isListening noRecognitionWorld
   \<and> step noRecognitionWorld MicClick
       = (noRecognitionWorld,
          [Alert (js ''Sorry, your browser does not support voice recognition.'')])"
proof -
  have "mount noRecognitionEnv = Normal (noRecognitionWorld, [])"
    by (simp add: mount_def noRecognitionEnv_def noRecognitionWorld_def loadEffect_def
        getItem_def storageKey_def initialWorld_def loadVoices_def saveEffect_def setItem_def
        JSON_stringify_def used_def rerender_def js_def)
  then have r: "reachable noRecognitionWorld"
    by (rule reachable_mount)
  have n: "recognition noRecognitionWorld = None"
    by (simp add: noRecognitionWorld_def)
  from r n C7_listen_without_recognition [OF r n] show ?thesis by simp
qed

text \<open>
  C8. When speech synthesis exists, playback cancels what is being spoken and speaks
  the text with the first voice of the list whose \<open>lang\<close> starts with the selected
  language; when no voice of the list does, it logs a warning and speaks with no
  voice set, which is the default voice. Without speech synthesis it alerts. In every
  case the handler runs to its end and changes nothing in the world.
\<close>

theorem C8_speak_voice_selection:
  "(hasSpeechSynthesis w \<longrightarrow>
      (\<forall>pre v post.
         voices w = pre @ v # post
         \<and> (\<exists>rest. voice_lang v = language w @ rest)
         \<and> (\<forall>u \<in> set pre. \<not> (\<exists>rest. voice_lang u = language w @ rest))
         \<longrightarrow> step w (SpeakClick t) = (w, [SynthesisCancel, SynthesisSpeak t (Some v)]))
      \<and> ((\<forall>u \<in> set (voices w). \<not> (\<exists>rest. voice_lang u = language w @ rest))
         \<longrightarrow> step w (SpeakClick t)
              = (w, [SynthesisCancel,
                     ConsoleWarn (js ''No voice found for language: '' @ language w
                                  @ js ''. Using default.''),
                     SynthesisSpeak t None])))
   \<and> (\<not> hasSpeechSynthesis w \<longrightarrow>
        step w (SpeakClick t)
          = (w, [Alert (js ''Sorry, your browser does not support text-to-speech.'')]))"
proof -
  let ?P = "\<lambda>voice. startsWith (voice_lang voice) (language w)"
  have first:
    "hasSpeechSynthesis w \<longrightarrow> (\<forall>pre v post.
       voices w = pre @ v # post
       \<and> (\<exists>rest. voice_lang v = language w @ rest)
       \<and> (\<forall>u \<in> set pre. \<not> (\<exists>rest. voice_lang u = language w @ rest))
       \<longrightarrow> step w (SpeakClick t) = (w, [SynthesisCancel, SynthesisSpeak t (Some v)]))"
  proof (intro allI impI)
    fix pre v post
    assume synth: "hasSpeechSynthesis w"
    assume h: "voices w = pre @ v # post
       \<and> (\<exists>rest. voice_lang v = language w @ rest)
       \<and> (\<forall>u \<in> set pre. \<not> (\<exists>rest. voice_lang u = language w @ rest))"
    then have "?P v" and "\<forall>u \<in> set pre. \<not> ?P u"
      by (simp_all add: startsWith_iff)
    then have "List.find ?P (pre @ v # post) = Some v"
      by (rule find_first)
    with h synth show "step w (SpeakClick t) = (w, [SynthesisCancel, SynthesisSpeak t (Some v)])"
      by (simp add: step_SpeakClick handleSpeak_def)
  qed
  have none:
    "hasSpeechSynthesis w \<longrightarrow>
     (\<forall>u \<in> set (voices w). \<not> (\<exists>rest. voice_lang u = language w @ rest))
      \<longrightarrow> step w (SpeakClick t)
           = (w, [SynthesisCancel,
                  ConsoleWarn (js ''No voice found for language: '' @ language w
                               @ js ''. Using default.''),
                  SynthesisSpeak t None])"
  proof (intro impI)
    assume synth: "hasSpeechSynthesis w"
    assume "\<forall>u \<in> set (voices w). \<not> (\<exists>rest. voice_lang u = language w @ rest)"
    then have "List.find ?P (voices w) = None"
      by (simp add: find_None_iff startsWith_iff)
    with synth show "step w (SpeakClick t)
           = (w, [SynthesisCancel,
                  ConsoleWarn (js ''No voice found for language: '' @ language w
                               @ js ''. Using default.''),
                  SynthesisSpeak t None])"
      by (simp add: step_SpeakClick handleSpeak_def)
  qed
  have absent: "\<not> hasSpeechSynthesis w \<longrightarrow>
        step w (SpeakClick t)
          = (w, [Alert (js ''Sorry, your browser does not support text-to-speech.'')])"
    by (simp add: step_SpeakClick handleSpeak_def)
  from first none absent show ?thesis by blast
qed

theorem C8_speak_voice_selection_witness:
  "hasSpeechSynthesis exampleWorld
   \<and> step (exampleWorld\<lparr>voices := [urduVoice, britishVoice, firstAmericanVoice,
                                     secondAmericanVoice]\<rparr>) (SpeakClick (js ''Buy Milk''))
       = (exampleWorld\<lparr>voices := [urduVoice, britishVoice, firstAmericanVoice,
                                   secondAmericanVoice]\<rparr>,
          [SynthesisCancel, SynthesisSpeak (js ''Buy Milk'') (Some firstAmericanVoice)])
   \<and> step (exampleWorld\<lparr>voices := [urduVoice, britishVoice]\<rparr>) (SpeakClick (js ''Buy Milk''))
       = (exampleWorld\<lparr>voices := [urduVoice, britishVoice]\<rparr>,
          [SynthesisCancel,
           ConsoleWarn (js ''No voice found for language: en-US. Using default.''),
           SynthesisSpeak (js ''Buy Milk'') None])
   \<and> step (exampleWorld\<lparr>hasSpeechSynthesis := False\<rparr>) (SpeakClick (js ''Buy Milk''))
       = (exampleWorld\<lparr>hasSpeechSynthesis := False\<rparr>,
          [Alert (js ''Sorry, your browser does not support text-to-speech.'')])"
proof -
  let ?w1 = "exampleWorld\<lparr>voices := [urduVoice, britishVoice, firstAmericanVoice,
                                      secondAmericanVoice]\<rparr>"
  let ?w2 = "exampleWorld\<lparr>voices := [urduVoice, britishVoice]\<rparr>"
  let ?w3 = "exampleWorld\<lparr>hasSpeechSynthesis := False\<rparr>"
  have s: "hasSpeechSynthesis exampleWorld"
    by (simp add: exampleWorld_def initialWorld_def exampleEnv_def)
  then have s1: "hasSpeechSynthesis ?w1" and s2: "hasSpeechSynthesis ?w2"
    by simp_all
  have lang: "language exampleWorld = js ''en-US''"
    by (simp add: exampleWorld_def initialWorld_def)
  have "step ?w1 (SpeakClick (js ''Buy Milk''))
          = (?w1, [SynthesisCancel, SynthesisSpeak (js ''Buy Milk'') (Some firstAmericanVoice)])"
    using C8_speak_voice_selection [of ?w1 "js ''Buy Milk''", THEN conjunct1, rule_format,
        OF s1, THEN conjunct1, rule_format,
        of "[urduVoice, britishVoice]" firstAmericanVoice "[secondAmericanVoice]"]
    by (simp add: lang urduVoice_def britishVoice_def firstAmericanVoice_def js_def)
  moreover have "step ?w2 (SpeakClick (js ''Buy Milk''))
       = (?w2,
          [SynthesisCancel,
           ConsoleWarn (js ''No voice found for language: en-US. Using default.''),
           SynthesisSpeak (js ''Buy Milk'') None])"
    using C8_speak_voice_selection [of ?w2 "js ''Buy Milk''", THEN conjunct1, rule_format,
        OF s2, THEN conjunct2]
    by (simp add: lang urduVoice_def britishVoice_def js_def)
  moreover have "step ?w3 (SpeakClick (js ''Buy Milk''))
       = (?w3, [Alert (js ''Sorry, your browser does not support text-to-speech.'')])"
    using C8_speak_voice_selection [of ?w3 "js ''Buy Milk''", THEN conjunct2]
    by simp
  ultimately show ?thesis using s by simp
qed

text \<open>
  C9, as amended. The "no memories yet" message is shown exactly when no memory
  exists and the filter is empty; the "no results" message, with the filter in it, is
  shown exactly when the filter is not empty and matches no memory, which includes
  the case that no memory exists at all. So the two are never shown together.
  \<open>toLowerCase\<close> enters as a function that maps the empty string to itself.
\<close>

theorem C9_empty_states:
  assumes empty: "lower [] = []"
  shows "(renderList lower w = EmptyState \<longleftrightarrow> memories w = [] \<and> searchTerm w = [])
         \<and> (\<forall>t. renderList lower w = NoResults t
                \<longleftrightarrow> filteredMemories lower w = [] \<and> searchTerm w \<noteq> [] \<and> t = searchTerm w)
         \<and> \<not> (renderList lower w = EmptyState \<and> (\<exists>t. renderList lower w = NoResults t))"
proof -
  have all: "searchTerm w = [] \<Longrightarrow> filteredMemories lower w = memories w"
    by (simp add: filteredMemories_def empty includes_js_Nil)
  have none: "memories w = [] \<Longrightarrow> filteredMemories lower w = []"
    by (simp add: filteredMemories_def)
  have first: "renderList lower w = EmptyState \<longleftrightarrow> memories w = [] \<and> searchTerm w = []"
    using all none by (auto simp: renderList_def split: if_splits)
  have second: "\<forall>t. renderList lower w = NoResults t
                \<longleftrightarrow> filteredMemories lower w = [] \<and> searchTerm w \<noteq> [] \<and> t = searchTerm w"
    by (auto simp: renderList_def split: if_splits)
  have third: "\<not> (renderList lower w = EmptyState \<and> (\<exists>t. renderList lower w = NoResults t))"
    by auto
  from first second third show ?thesis by blast
qed

theorem C9_empty_states_witness:
  "lowerASCII [] = []
   \<and> renderList lowerASCII exampleWorld = EmptyState
   \<and> renderList lowerASCII (exampleWorld\<lparr>memories := [buyMilk], searchTerm := js ''almond''\<rparr>)
       = NoResults (js ''almond'')
   \<and> renderList lowerASCII (exampleWorld\<lparr>memories := [buyMilk], searchTerm := js ''milk''\<rparr>)
       = Items [buyMilk]"
proof -
  have e: "lowerASCII [] = []"
    by (simp add: lowerASCII_def)
  have "memories exampleWorld = []" and "searchTerm exampleWorld = []"
    by (simp_all add: exampleWorld_def initialWorld_def)
  with C9_empty_states [of lowerASCII exampleWorld, OF e, THEN conjunct1]
  have "renderList lowerASCII exampleWorld = EmptyState"
    by simp
  moreover have "renderList lowerASCII
      (exampleWorld\<lparr>memories := [buyMilk], searchTerm := js ''almond''\<rparr>)
       = NoResults (js ''almond'')"
    by (simp add: renderList_def filteredMemories_def buyMilk_def lowerASCII_def js_def)
  moreover have "renderList lowerASCII
      (exampleWorld\<lparr>memories := [buyMilk], searchTerm := js ''milk''\<rparr>) = Items [buyMilk]"
    by (simp add: renderList_def filteredMemories_def buyMilk_def lowerASCII_def js_def)
  ultimately show ?thesis using e by simp
qed

text \<open>
  C9 as stated fails in a state with no memories and a non-empty filter: there the
  "no results" message is shown and the "no memories yet" message is not.
\<close>

theorem C9_counterexample:
  "memories (exampleWorld\<lparr>searchTerm := js ''milk''\<rparr>) = []
   \<and> renderList lowerASCII (exampleWorld\<lparr>searchTerm := js ''milk''\<rparr>) = NoResults (js ''milk'')
   \<and> renderList lowerASCII (exampleWorld\<lparr>searchTerm := js ''milk''\<rparr>) \<noteq> EmptyState"
  by (simp add: renderList_def filteredMemories_def exampleWorld_def initialWorld_def js_def)

text \<open>
  C10. Deleting by an id that no memory of the collection has leaves the collection
  as it is.
\<close>

theorem C10_delete_absent_id:
  "list_all (\<lambda>m. m_id m \<noteq> i) (memories w) \<Longrightarrow>
   memories (fst (step w (DeleteClick i))) = memories w"
  by (simp add: memories_step_Delete list_all_iff)

theorem C10_delete_absent_id_witness:
  "list_all (\<lambda>m. m_id m \<noteq> 7)
     (memories (exampleWorld\<lparr>memories := [\<lparr>m_id = 5, m_text = js ''a'', m_timestamp = js ''t''\<rparr>]\<rparr>))
   \<and> memories (fst (step
        (exampleWorld\<lparr>memories := [\<lparr>m_id = 5, m_text = js ''a'', m_timestamp = js ''t''\<rparr>]\<rparr>)
        (DeleteClick 7)))
     = [\<lparr>m_id = 5, m_text = js ''a'', m_timestamp = js ''t''\<rparr>]"
  using C10_delete_absent_id
    [of 7 "exampleWorld\<lparr>memories := [\<lparr>m_id = 5, m_text = js ''a'', m_timestamp = js ''t''\<rparr>]\<rparr>"]
  by simp

end
